theory Spec2Isabelle
  imports Main "HOL-Library.AList"
begin

section \<open>The storage layer of CampaignCentral\<close>

text \<open>
  The storage module declares the interface \<open>IStorage\<close> and two classes implementing it:
  \<open>DatabaseStorage\<close>, which issues query-builder calls against a relational store, and
  \<open>MemStorage\<close>, which keeps every entity kind in a JavaScript \<open>Map\<close> keyed by id.
  Both are embedded here as pure functions that take the store and return the result
  together with the updated store.  Everything a method reads from its environment is an
  explicit argument: every clock reading (milliseconds since the epoch, the value of one
  \<open>new Date()\<close>), the local time zone \<open>tz\<close> and the random bytes of a reset token.
\<close>

subsection \<open>JavaScript values\<close>

type_synonym timestamp = int

text \<open>\<open>new Error(msg)\<close>, thrown by a method.\<close>

datatype error = Error string

text \<open>
  An optional or nullable property is an \<open>option\<close>; \<open>None\<close> stands for both
  \<open>undefined\<close> and \<open>null\<close>.  \<open>x || null\<close> on a string keeps a non-empty string and
  turns the empty string, \<open>null\<close> and \<open>undefined\<close> into \<open>null\<close>; the same function
  decides \<open>if (x)\<close>.
\<close>

fun or_null :: "string option \<Rightarrow> string option" where
  "or_null None = None"
| "or_null (Some s) = (if s = [] then None else Some s)"

text \<open>\<open>x || 0\<close> on a number: \<open>0\<close> for \<open>undefined\<close>, \<open>null\<close> and \<open>0\<close>.\<close>

fun or_zero :: "int option \<Rightarrow> int" where
  "or_zero None = 0"
| "or_zero (Some n) = (if n = 0 then 0 else n)"

text \<open>\<open>x ?? d\<close>: the default only for \<open>undefined\<close> and \<open>null\<close>.\<close>

fun nullish :: "'a option \<Rightarrow> 'a \<Rightarrow> 'a" where
  "nullish None d = d"
| "nullish (Some v) d = v"

text \<open>\<open>String.prototype.toLowerCase\<close> on the ASCII letters.\<close>

definition lower_char :: "char \<Rightarrow> char" where
  "lower_char c =
     (case map_of (zip ''ABCDEFGHIJKLMNOPQRSTUVWXYZ'' ''abcdefghijklmnopqrstuvwxyz'') c of
        Some l \<Rightarrow> l
      | None \<Rightarrow> c)"

definition toLowerCase :: "string \<Rightarrow> string" where
  "toLowerCase s = map lower_char s"

text \<open>\<open>s.includes(t)\<close>: \<open>t\<close> occurs in \<open>s\<close> as a contiguous substring.\<close>

fun startsWith :: "string \<Rightarrow> string \<Rightarrow> bool" where
  "startsWith s [] = True"
| "startsWith [] (y # ys) = False"
| "startsWith (x # xs) (y # ys) = (x = y \<and> startsWith xs ys)"

fun str_includes :: "string \<Rightarrow> string \<Rightarrow> bool" where
  "str_includes [] t = (t = [])"
| "str_includes (x # xs) t = (startsWith (x # xs) t \<or> str_includes xs t)"

text \<open>Hexadecimal encoding of a byte buffer, \<open>Buffer.from(bytes).toString('hex')\<close>.\<close>

definition hex_digit :: "nat \<Rightarrow> char" where
  "hex_digit n = ''0123456789abcdef'' ! (n mod 16)"

definition hex_encode :: "nat list \<Rightarrow> string" where
  "hex_encode bs = concat (map (\<lambda>b. [hex_digit ((b mod 256) div 16), hex_digit (b mod 16)]) bs)"

subsection \<open>The Date object\<close>

text \<open>
  The time functions of the ECMAScript specification, on integer time values.  The
  clipping of time values beyond \<open>8.64 * 10^15\<close> is left out.
\<close>

definition msPerDay :: int where "msPerDay = 86400000"
definition msPerHour :: int where "msPerHour = 3600000"
definition msPerMinute :: int where "msPerMinute = 60000"
definition msPerSecond :: int where "msPerSecond = 1000"

definition Day :: "timestamp \<Rightarrow> int" where
  "Day t = t div msPerDay"

definition TimeWithinDay :: "timestamp \<Rightarrow> int" where
  "TimeWithinDay t = t mod msPerDay"

definition DaysInYear :: "int \<Rightarrow> int" where
  "DaysInYear y =
     (if y mod 4 \<noteq> 0 then 365
      else if y mod 100 \<noteq> 0 then 366
      else if y mod 400 \<noteq> 0 then 365
      else 366)"

definition DayFromYear :: "int \<Rightarrow> int" where
  "DayFromYear y =
     365 * (y - 1970) + (y - 1969) div 4 - (y - 1901) div 100 + (y - 1601) div 400"

text \<open>
  \<open>YearFromTime t\<close> is the largest year whose first day is not after \<open>t\<close>.  It lies
  between the two estimates that take every year to have 366 and 365 days, so the search
  runs over that interval.
\<close>

definition YearFromTime :: "timestamp \<Rightarrow> int" where
  "YearFromTime t =
     (let d = Day t;
          lo = 1970 + (if 0 \<le> d then d div 366 else d div 365);
          hi = 1970 + (if 0 \<le> d then d div 365 else d div 366)
      in fold (\<lambda>y acc. if DayFromYear y \<le> d then y else acc) [lo..hi] lo)"

definition InLeapYear :: "timestamp \<Rightarrow> int" where
  "InLeapYear t = (if DaysInYear (YearFromTime t) = 366 then 1 else 0)"

definition DayWithinYear :: "timestamp \<Rightarrow> int" where
  "DayWithinYear t = Day t - DayFromYear (YearFromTime t)"

definition MonthFromTime :: "timestamp \<Rightarrow> int" where
  "MonthFromTime t =
     (let d = DayWithinYear t; l = InLeapYear t in
      if d < 31 then 0
      else if d < 59 + l then 1
      else if d < 90 + l then 2
      else if d < 120 + l then 3
      else if d < 151 + l then 4
      else if d < 181 + l then 5
      else if d < 212 + l then 6
      else if d < 243 + l then 7
      else if d < 273 + l then 8
      else if d < 304 + l then 9
      else if d < 334 + l then 10
      else 11)"

text \<open>The number of days of a year before month \<open>m\<close> (0 to 11) begins.\<close>

definition DaysBeforeMonth :: "int \<Rightarrow> int \<Rightarrow> int" where
  "DaysBeforeMonth m l =
     (if m = 0 then 0
      else if m = 1 then 31
      else if m = 2 then 59 + l
      else if m = 3 then 90 + l
      else if m = 4 then 120 + l
      else if m = 5 then 151 + l
      else if m = 6 then 181 + l
      else if m = 7 then 212 + l
      else if m = 8 then 243 + l
      else if m = 9 then 273 + l
      else if m = 10 then 304 + l
      else 334 + l)"

definition DateFromTime :: "timestamp \<Rightarrow> int" where
  "DateFromTime t =
     DayWithinYear t - DaysBeforeMonth (MonthFromTime t) (InLeapYear t) + 1"

definition HourFromTime :: "timestamp \<Rightarrow> int" where
  "HourFromTime t = (t div msPerHour) mod 24"

definition MinFromTime :: "timestamp \<Rightarrow> int" where
  "MinFromTime t = (t div msPerMinute) mod 60"

definition SecFromTime :: "timestamp \<Rightarrow> int" where
  "SecFromTime t = (t div msPerSecond) mod 60"

definition msFromTime :: "timestamp \<Rightarrow> int" where
  "msFromTime t = t mod msPerSecond"

definition MakeTime :: "int \<Rightarrow> int \<Rightarrow> int \<Rightarrow> int \<Rightarrow> int" where
  "MakeTime h m s ms = h * msPerHour + m * msPerMinute + s * msPerSecond + ms"

text \<open>
  \<open>MakeDay year month date\<close>: the day number of the first of the month, the month taken
  modulo 12 with the carry added to the year, plus \<open>date - 1\<close>.
\<close>

definition MakeDay :: "int \<Rightarrow> int \<Rightarrow> int \<Rightarrow> int" where
  "MakeDay year month date =
     (let ym = year + month div 12;
          mn = month mod 12
      in DayFromYear ym
         + DaysBeforeMonth mn (if DaysInYear ym = 366 then 1 else 0)
         + date - 1)"

definition MakeDate :: "int \<Rightarrow> int \<Rightarrow> timestamp" where
  "MakeDate day time = day * msPerDay + time"

text \<open>
  The local time zone is the host's: \<open>LocalTZA(t, true)\<close>, the offset in force at the
  instant \<open>t\<close>, and \<open>LocalTZA(t, false)\<close>, the offset by which the local time value
  \<open>t\<close> is read back as an instant.  Both may change from one instant to another, as
  they do where daylight saving time is kept.
\<close>

record zone =
  utc_offset :: "timestamp \<Rightarrow> int"
  local_offset :: "timestamp \<Rightarrow> int"

definition LocalTime :: "zone \<Rightarrow> timestamp \<Rightarrow> timestamp" where
  "LocalTime tz t = t + utc_offset tz t"

definition UTC :: "zone \<Rightarrow> timestamp \<Rightarrow> timestamp" where
  "UTC tz t = t - local_offset tz t"

definition getHours :: "zone \<Rightarrow> timestamp \<Rightarrow> int" where
  "getHours tz t = HourFromTime (LocalTime tz t)"

definition getDate :: "zone \<Rightarrow> timestamp \<Rightarrow> int" where
  "getDate tz t = DateFromTime (LocalTime tz t)"

definition getMonth :: "zone \<Rightarrow> timestamp \<Rightarrow> int" where
  "getMonth tz t = MonthFromTime (LocalTime tz t)"

definition getFullYear :: "zone \<Rightarrow> timestamp \<Rightarrow> int" where
  "getFullYear tz t = YearFromTime (LocalTime tz t)"

text \<open>\<open>d.setHours(hour)\<close>, the minutes, seconds and milliseconds kept.\<close>

definition setHours :: "zone \<Rightarrow> timestamp \<Rightarrow> int \<Rightarrow> timestamp" where
  "setHours tz d hour =
     (let t = LocalTime tz d
      in UTC tz (MakeDate (Day t)
           (MakeTime hour (MinFromTime t) (SecFromTime t) (msFromTime t))))"

text \<open>\<open>d.setHours(hour, min, sec, ms)\<close>.\<close>

definition setHours4 :: "zone \<Rightarrow> timestamp \<Rightarrow> int \<Rightarrow> int \<Rightarrow> int \<Rightarrow> int \<Rightarrow> timestamp" where
  "setHours4 tz d hour mi sec ms =
     (let t = LocalTime tz d
      in UTC tz (MakeDate (Day t) (MakeTime hour mi sec ms)))"

definition setDate :: "zone \<Rightarrow> timestamp \<Rightarrow> int \<Rightarrow> timestamp" where
  "setDate tz d date =
     (let t = LocalTime tz d
      in UTC tz (MakeDate (MakeDay (YearFromTime t) (MonthFromTime t) date)
           (TimeWithinDay t)))"

definition setMonth :: "zone \<Rightarrow> timestamp \<Rightarrow> int \<Rightarrow> timestamp" where
  "setMonth tz d month =
     (let t = LocalTime tz d
      in UTC tz (MakeDate (MakeDay (YearFromTime t) month (DateFromTime t))
           (TimeWithinDay t)))"

definition setFullYear :: "zone \<Rightarrow> timestamp \<Rightarrow> int \<Rightarrow> timestamp" where
  "setFullYear tz d year =
     (let t = LocalTime tz d
      in UTC tz (MakeDate (MakeDay year (MonthFromTime t) (DateFromTime t))
           (TimeWithinDay t)))"

text \<open>
  The \<open>switch\<close> on \<open>filters.dateRange\<close>, which the four filtering methods share word for
  word.  The clock is read twice, first for \<open>now\<close> and then for \<open>startDate\<close>; a
  recognised range moves \<open>startDate\<close> back, and a value without a \<open>case\<close> leaves it
  where it is.
\<close>

definition dateRangeStart :: "zone \<Rightarrow> timestamp \<Rightarrow> timestamp \<Rightarrow> string \<Rightarrow> timestamp" where
  "dateRangeStart tz now startDate dateRange =
     (if dateRange = ''today'' then setHours4 tz startDate 0 0 0 0
      else if dateRange = ''last-week'' then setDate tz startDate (getDate tz now - 7)
      else if dateRange = ''last-month'' then setMonth tz startDate (getMonth tz now - 1)
      else if dateRange = ''last-year'' then setFullYear tz startDate (getFullYear tz now - 1)
      else startDate)"

subsection \<open>Entities\<close>

text \<open>
  Modelled from the spec: the entity types \<open>User\<close>, \<open>Contact\<close>, \<open>Campaign\<close>,
  \<open>Analytics\<close> and their insert shapes are declared in the shared schema module, which is
  not among the sources.  The records follow the data model table of the specification and
  the properties the storage module reads and writes.  Field names carry a prefix per
  record.
\<close>

record user =
  u_id :: int
  u_username :: string
  u_email :: "string option"
  u_password :: string
  u_resetToken :: "string option"
  u_resetTokenExpiry :: "timestamp option"
  u_createdAt :: timestamp

record insert_user =
  iu_username :: string
  iu_password :: string
  iu_email :: "string option"

record contact =
  c_id :: int
  c_accountId :: int
  c_name :: string
  c_mobile :: string
  c_label :: "string option"
  c_location :: "string option"
  c_createdAt :: timestamp

record insert_contact =
  ic_accountId :: int
  ic_name :: string
  ic_mobile :: string
  ic_label :: "string option"
  ic_location :: "string option"

record campaign =
  cp_id :: int
  cp_accountId :: int
  cp_name :: string
  cp_template :: string
  cp_contactLabel :: "string option"
  cp_status :: string
  cp_scheduledFor :: "timestamp option"
  cp_createdAt :: timestamp

record insert_campaign =
  icp_accountId :: int
  icp_name :: string
  icp_template :: string
  icp_contactLabel :: "string option"
  icp_status :: "string option"
  icp_scheduledFor :: "timestamp option"

record analytics =
  an_id :: int
  an_accountId :: int
  an_campaignId :: int
  an_sent :: int
  an_delivered :: int
  an_read :: int
  an_optout :: int
  an_hold :: int
  an_failed :: int
  an_updatedAt :: timestamp

record insert_analytics =
  ia_accountId :: int
  ia_campaignId :: int
  ia_sent :: "int option"
  ia_delivered :: "int option"
  ia_read :: "int option"
  ia_optout :: "int option"
  ia_hold :: "int option"
  ia_failed :: "int option"

text \<open>The filter objects \<open>ContactFilters\<close> and \<open>CampaignFilters\<close>.\<close>

record contact_filters =
  cf_search :: "string option"
  cf_label :: "string option"
  cf_location :: "string option"
  cf_dateRange :: "string option"

record campaign_filters =
  pf_search :: "string option"
  pf_status :: "string option"
  pf_dateRange :: "string option"

subsection \<open>The relational engine\<close>

text \<open>
  The query builder and the database engine are outside the repository.  A table is the
  list of its rows in insertion order, an update rewrites the selected rows in place, and
  a serial primary key is drawn from a sequence that starts at 1.  \<open>returning()\<close> yields
  the rows an insert, update or delete touched.
\<close>

definition select_where :: "('r \<Rightarrow> bool) \<Rightarrow> 'r list \<Rightarrow> 'r list" where
  "select_where p rows = filter p rows"

definition update_where :: "('r \<Rightarrow> bool) \<Rightarrow> ('r \<Rightarrow> 'r) \<Rightarrow> 'r list \<Rightarrow> 'r list \<times> 'r list" where
  "update_where p f rows =
     (map f (filter p rows), map (\<lambda>r. if p r then f r else r) rows)"

definition delete_where :: "('r \<Rightarrow> bool) \<Rightarrow> 'r list \<Rightarrow> 'r list \<times> 'r list" where
  "delete_where p rows = (filter p rows, filter (\<lambda>r. \<not> p r) rows)"

text \<open>
  \<open>like(column, pattern)\<close>: in the pattern \<open>%\<close> stands for any run of characters,
  \<open>_\<close> for any one character, and a backslash makes the character after it literal.
  The match is case sensitive.
\<close>

fun like :: "string \<Rightarrow> string \<Rightarrow> bool" where
  "like s [] = (s = [])"
| "like [] (p # ps) = (p = CHR ''%'' \<and> like [] ps)"
| "like (c # cs) (p # ps) =
     (if p = CHR ''%'' then like (c # cs) ps \<or> like cs (p # ps)
      else if p = CHR ''_'' then like cs ps
      else if p = CHR 0x5C then
        (case ps of
           [] \<Rightarrow> False
         | q # qs \<Rightarrow> c = q \<and> like cs qs)
      else c = p \<and> like cs ps)"

record db =
  db_users :: "user list"
  db_contacts :: "contact list"
  db_campaigns :: "campaign list"
  db_analytics :: "analytics list"
  db_users_seq :: int
  db_contacts_seq :: int
  db_campaigns_seq :: int
  db_analytics_seq :: int

definition db_empty :: db where
  "db_empty = \<lparr> db_users = [], db_contacts = [], db_campaigns = [], db_analytics = [],
     db_users_seq = 1, db_contacts_seq = 1, db_campaigns_seq = 1, db_analytics_seq = 1 \<rparr>"

subsection \<open>The JavaScript Map\<close>

text \<open>
  A \<open>Map\<close> keeps its entries in insertion order; \<open>set\<close> on a present key replaces the
  value where it stands, and on a new key appends the entry.
\<close>

type_synonym 'v jsmap = "(int \<times> 'v) list"

definition map_get :: "'v jsmap \<Rightarrow> int \<Rightarrow> 'v option" where
  "map_get m k = map_of m k"

definition map_set :: "'v jsmap \<Rightarrow> int \<Rightarrow> 'v \<Rightarrow> 'v jsmap" where
  "map_set m k v = AList.update k v m"

definition map_values :: "'v jsmap \<Rightarrow> 'v list" where
  "map_values m = map snd m"

record mem =
  users :: "user jsmap"
  contacts :: "contact jsmap"
  campaigns :: "campaign jsmap"
  analyticsData :: "analytics jsmap"
  userCurrentId :: int
  contactCurrentId :: int
  campaignCurrentId :: int
  analyticsCurrentId :: int

definition mem_empty :: mem where
  "mem_empty = \<lparr> users = [], contacts = [], campaigns = [], analyticsData = [],
     userCurrentId = 1, contactCurrentId = 1, campaignCurrentId = 1, analyticsCurrentId = 1 \<rparr>"

subsection \<open>DatabaseStorage\<close>

text \<open>
  A method that reads the clock once takes the reading as \<open>now\<close>.  The filtering
  methods read it twice, for \<open>now\<close> and for \<open>startDate\<close>, and take both readings.
  \<open>importContacts\<close> reads it once for every contact it creates: it takes \<open>clock\<close>,
  where \<open>clock i\<close> is the reading at the creation that follows \<open>i\<close> earlier ones.  The
  session store, the settings methods and the update and delete methods of contacts and
  campaigns are not embedded.
\<close>

text \<open>\<open>result.length > 0 ? result[0] : undefined\<close>.\<close>

fun first_row :: "'r list \<Rightarrow> 'r option" where
  "first_row [] = None"
| "first_row (r # rs) = Some r"

definition db_getUser :: "db \<Rightarrow> int \<Rightarrow> user option" where
  "db_getUser s ident = first_row (select_where (\<lambda>u. u_id u = ident) (db_users s))"

definition db_getUserByUsername :: "db \<Rightarrow> string \<Rightarrow> user option" where
  "db_getUserByUsername s username =
     first_row (select_where (\<lambda>u. u_username u = username) (db_users s))"

definition db_getUserByEmail :: "db \<Rightarrow> string \<Rightarrow> user option" where
  "db_getUserByEmail s email =
     first_row (select_where (\<lambda>u. u_email u = Some email) (db_users s))"

definition db_createUser :: "timestamp \<Rightarrow> db \<Rightarrow> insert_user \<Rightarrow> user \<times> db" where
  "db_createUser now s insertUser =
     (let row = \<lparr> u_id = db_users_seq s, u_username = iu_username insertUser,
                   u_email = iu_email insertUser, u_password = iu_password insertUser,
                   u_resetToken = None, u_resetTokenExpiry = None, u_createdAt = now \<rparr>
      in (row, s\<lparr> db_users := db_users s @ [row], db_users_seq := db_users_seq s + 1 \<rparr>))"

definition db_createResetToken ::
    "zone \<Rightarrow> nat list \<Rightarrow> timestamp \<Rightarrow> db \<Rightarrow> int \<Rightarrow> error + (string \<times> db)" where
  "db_createResetToken tz rnd now s userId =
     (case db_getUser s userId of
        None \<Rightarrow> Inl (Error ''User not found'')
      | Some user \<Rightarrow>
          (let token = hex_encode rnd;
               expiry = setHours tz now (getHours tz now + 1);
               (result, rows) =
                 update_where (\<lambda>u. u_id u = userId)
                   (\<lambda>u. u\<lparr> u_resetToken := Some token, u_resetTokenExpiry := Some expiry \<rparr>)
                   (db_users s)
           in if length result = 0 then Inl (Error ''Failed to create reset token'')
              else Inr (token, s\<lparr> db_users := rows \<rparr>)))"

definition db_verifyResetToken :: "timestamp \<Rightarrow> db \<Rightarrow> string \<Rightarrow> user option" where
  "db_verifyResetToken now s token =
     (case select_where (\<lambda>u. u_resetToken u = Some token) (db_users s) of
        [] \<Rightarrow> None
      | user # rest \<Rightarrow>
          (case u_resetTokenExpiry user of
             None \<Rightarrow> None
           | Some expiry \<Rightarrow> if expiry < now then None else Some user))"

definition db_updatePassword :: "db \<Rightarrow> int \<Rightarrow> string \<Rightarrow> bool \<times> db" where
  "db_updatePassword s userId password =
     (let (result, rows) =
            update_where (\<lambda>u. u_id u = userId)
              (\<lambda>u. u\<lparr> u_password := password, u_resetToken := None,
                        u_resetTokenExpiry := None \<rparr>)
              (db_users s)
      in (length result > 0, s\<lparr> db_users := rows \<rparr>))"

definition db_getContacts ::
    "zone \<Rightarrow> timestamp \<Rightarrow> timestamp \<Rightarrow> db \<Rightarrow> int \<Rightarrow> contact_filters option \<Rightarrow>
     contact list" where
  "db_getContacts tz now startDate0 s accountId filters =
     (case filters of
        None \<Rightarrow> select_where (\<lambda>c. c_accountId c = accountId) (db_contacts s)
      | Some f \<Rightarrow>
          (case or_null (cf_search f) of
             Some search \<Rightarrow>
               (let searchTerm = ''%'' @ search @ ''%''
                in select_where
                     (\<lambda>c. c_accountId c = accountId \<and>
                          (like (c_name c) searchTerm \<or> like (c_mobile c) searchTerm))
                     (db_contacts s))
           | None \<Rightarrow>
          (case or_null (cf_label f) of
             Some label \<Rightarrow>
               select_where (\<lambda>c. c_accountId c = accountId \<and> c_label c = Some label)
                 (db_contacts s)
           | None \<Rightarrow>
          (case or_null (cf_location f) of
             Some location \<Rightarrow>
               select_where (\<lambda>c. c_accountId c = accountId \<and> c_location c = Some location)
                 (db_contacts s)
           | None \<Rightarrow>
          (case or_null (cf_dateRange f) of
             Some dateRange \<Rightarrow>
               (let startDate = dateRangeStart tz now startDate0 dateRange
                in select_where (\<lambda>c. c_accountId c = accountId \<and> c_createdAt c \<ge> startDate)
                     (db_contacts s))
           | None \<Rightarrow>
               select_where (\<lambda>c. c_accountId c = accountId) (db_contacts s))))))"

definition db_getContactById :: "db \<Rightarrow> int \<Rightarrow> contact option" where
  "db_getContactById s ident = first_row (select_where (\<lambda>c. c_id c = ident) (db_contacts s))"

definition db_getContactByMobile :: "db \<Rightarrow> string \<Rightarrow> int \<Rightarrow> contact option" where
  "db_getContactByMobile s mobile accountId =
     first_row (select_where (\<lambda>c. c_mobile c = mobile \<and> c_accountId c = accountId)
       (db_contacts s))"

definition db_createContact :: "timestamp \<Rightarrow> db \<Rightarrow> insert_contact \<Rightarrow> contact \<times> db" where
  "db_createContact now s insertContact =
     (let row = \<lparr> c_id = db_contacts_seq s, c_accountId = ic_accountId insertContact,
                   c_name = ic_name insertContact, c_mobile = ic_mobile insertContact,
                   c_label = or_null (ic_label insertContact),
                   c_location = or_null (ic_location insertContact),
                   c_createdAt = now \<rparr>
      in (row, s\<lparr> db_contacts := db_contacts s @ [row],
                   db_contacts_seq := db_contacts_seq s + 1 \<rparr>))"

record import_result =
  imported :: nat
  duplicates :: nat

text \<open>
  The \<open>for\<close> loop of \<open>importContacts\<close> over the rest of the list, with the two counters
  and the store as they stand.  A record found by \<open>getContactByMobile\<close> is counted and
  the loop continues; any other record is created.
\<close>

fun db_importLoop ::
    "(nat \<Rightarrow> timestamp) \<Rightarrow> bool \<Rightarrow> insert_contact list \<Rightarrow> nat \<Rightarrow> nat \<Rightarrow> db \<Rightarrow>
     import_result \<times> db" where
  "db_importLoop clock deduplicateByMobile [] imp dup s =
     (\<lparr> imported = imp, duplicates = dup \<rparr>, s)"
| "db_importLoop clock deduplicateByMobile (contact # rest) imp dup s =
     (if deduplicateByMobile then
        (case db_getContactByMobile s (ic_mobile contact) (ic_accountId contact) of
           Some existing \<Rightarrow> db_importLoop clock deduplicateByMobile rest imp (dup + 1) s
         | None \<Rightarrow>
             db_importLoop clock deduplicateByMobile rest (imp + 1) dup
               (snd (db_createContact (clock imp) s contact)))
      else db_importLoop clock deduplicateByMobile rest (imp + 1) dup
             (snd (db_createContact (clock imp) s contact)))"

definition db_importContacts ::
    "(nat \<Rightarrow> timestamp) \<Rightarrow> db \<Rightarrow> insert_contact list \<Rightarrow> bool \<Rightarrow> import_result \<times> db" where
  "db_importContacts clock s contactsList deduplicateByMobile =
     db_importLoop clock deduplicateByMobile contactsList 0 0 s"

definition db_getCampaigns ::
    "zone \<Rightarrow> timestamp \<Rightarrow> timestamp \<Rightarrow> db \<Rightarrow> int \<Rightarrow> campaign_filters option \<Rightarrow>
     campaign list" where
  "db_getCampaigns tz now startDate0 s accountId filters =
     (case filters of
        None \<Rightarrow> select_where (\<lambda>c. cp_accountId c = accountId) (db_campaigns s)
      | Some f \<Rightarrow>
          (case or_null (pf_search f) of
             Some search \<Rightarrow>
               (let searchTerm = ''%'' @ search @ ''%''
                in select_where
                     (\<lambda>c. cp_accountId c = accountId \<and> like (cp_name c) searchTerm)
                     (db_campaigns s))
           | None \<Rightarrow>
          (case or_null (pf_status f) of
             Some status \<Rightarrow>
               select_where (\<lambda>c. cp_accountId c = accountId \<and> cp_status c = status)
                 (db_campaigns s)
           | None \<Rightarrow>
          (case or_null (pf_dateRange f) of
             Some dateRange \<Rightarrow>
               (let startDate = dateRangeStart tz now startDate0 dateRange
                in select_where (\<lambda>c. cp_accountId c = accountId \<and> cp_createdAt c \<ge> startDate)
                     (db_campaigns s))
           | None \<Rightarrow>
               select_where (\<lambda>c. cp_accountId c = accountId) (db_campaigns s)))))"

definition db_getCampaignById :: "db \<Rightarrow> int \<Rightarrow> campaign option" where
  "db_getCampaignById s ident = first_row (select_where (\<lambda>c. cp_id c = ident) (db_campaigns s))"

definition db_createCampaign :: "timestamp \<Rightarrow> db \<Rightarrow> insert_campaign \<Rightarrow> campaign \<times> db" where
  "db_createCampaign now s insertCampaign =
     (let row = \<lparr> cp_id = db_campaigns_seq s, cp_accountId = icp_accountId insertCampaign,
                   cp_name = icp_name insertCampaign,
                   cp_template = icp_template insertCampaign,
                   cp_contactLabel = or_null (icp_contactLabel insertCampaign),
                   cp_status = ''draft'',
                   cp_scheduledFor = icp_scheduledFor insertCampaign,
                   cp_createdAt = now \<rparr>
      in (row, s\<lparr> db_campaigns := db_campaigns s @ [row],
                   db_campaigns_seq := db_campaigns_seq s + 1 \<rparr>))"

definition db_getAnalytics :: "db \<Rightarrow> int \<Rightarrow> int option \<Rightarrow> analytics list" where
  "db_getAnalytics s accountId campaignId =
     (case campaignId of
        Some cid \<Rightarrow>
          (if cid \<noteq> 0
           then select_where (\<lambda>a. an_accountId a = accountId \<and> an_campaignId a = cid)
                  (db_analytics s)
           else select_where (\<lambda>a. an_accountId a = accountId) (db_analytics s))
      | None \<Rightarrow> select_where (\<lambda>a. an_accountId a = accountId) (db_analytics s))"

definition db_createOrUpdateAnalytics ::
    "timestamp \<Rightarrow> db \<Rightarrow> insert_analytics \<Rightarrow> analytics option \<times> db" where
  "db_createOrUpdateAnalytics now s insertAnalytics =
     (case select_where (\<lambda>a. an_campaignId a = ia_campaignId insertAnalytics)
             (db_analytics s) of
        existing0 # rest \<Rightarrow>
          (let (result, rows) =
                 update_where (\<lambda>a. an_id a = an_id existing0)
                   (\<lambda>a. a\<lparr> an_accountId := ia_accountId insertAnalytics,
                             an_campaignId := ia_campaignId insertAnalytics,
                             an_updatedAt := now,
                             an_sent := nullish (ia_sent insertAnalytics) (an_sent existing0),
                             an_delivered :=
                               nullish (ia_delivered insertAnalytics) (an_delivered existing0),
                             an_read := nullish (ia_read insertAnalytics) (an_read existing0),
                             an_optout :=
                               nullish (ia_optout insertAnalytics) (an_optout existing0),
                             an_hold := nullish (ia_hold insertAnalytics) (an_hold existing0),
                             an_failed :=
                               nullish (ia_failed insertAnalytics) (an_failed existing0) \<rparr>)
                   (db_analytics s)
           in (first_row result, s\<lparr> db_analytics := rows \<rparr>))
      | [] \<Rightarrow>
          (let row = \<lparr> an_id = db_analytics_seq s,
                        an_accountId = ia_accountId insertAnalytics,
                        an_campaignId = ia_campaignId insertAnalytics,
                        an_sent = or_zero (ia_sent insertAnalytics),
                        an_delivered = or_zero (ia_delivered insertAnalytics),
                        an_read = or_zero (ia_read insertAnalytics),
                        an_optout = or_zero (ia_optout insertAnalytics),
                        an_hold = or_zero (ia_hold insertAnalytics),
                        an_failed = or_zero (ia_failed insertAnalytics),
                        an_updatedAt = now \<rparr>
           in (Some row, s\<lparr> db_analytics := db_analytics s @ [row],
                            db_analytics_seq := db_analytics_seq s + 1 \<rparr>)))"

definition db_launchCampaign :: "timestamp \<Rightarrow> db \<Rightarrow> int \<Rightarrow> bool \<times> db" where
  "db_launchCampaign now s ident =
     (let (result, rows) =
            update_where (\<lambda>c. cp_id c = ident) (\<lambda>c. c\<lparr> cp_status := ''active'' \<rparr>)
              (db_campaigns s)
      in case result of
           [] \<Rightarrow> (False, s\<lparr> db_campaigns := rows \<rparr>)
         | r0 # rest \<Rightarrow>
             (True,
              snd (db_createOrUpdateAnalytics now (s\<lparr> db_campaigns := rows \<rparr>)
                \<lparr> ia_accountId = cp_accountId r0, ia_campaignId = ident,
                  ia_sent = Some 0, ia_delivered = Some 0, ia_read = Some 0,
                  ia_optout = Some 0, ia_hold = Some 0, ia_failed = Some 0 \<rparr>)))"

subsection \<open>MemStorage\<close>

definition mem_getUser :: "mem \<Rightarrow> int \<Rightarrow> user option" where
  "mem_getUser s ident = map_get (users s) ident"

definition mem_getUserByUsername :: "mem \<Rightarrow> string \<Rightarrow> user option" where
  "mem_getUserByUsername s username =
     find (\<lambda>u. u_username u = username) (map_values (users s))"

definition mem_getUserByEmail :: "mem \<Rightarrow> string \<Rightarrow> user option" where
  "mem_getUserByEmail s email = find (\<lambda>u. u_email u = Some email) (map_values (users s))"

definition mem_createUser :: "timestamp \<Rightarrow> mem \<Rightarrow> insert_user \<Rightarrow> user \<times> mem" where
  "mem_createUser now s insertUser =
     (let ident = userCurrentId s;
          createdAt = now;
          user = \<lparr> u_id = ident, u_username = iu_username insertUser,
                   u_email = or_null (iu_email insertUser),
                   u_password = iu_password insertUser,
                   u_resetToken = None, u_resetTokenExpiry = None, u_createdAt = createdAt \<rparr>
      in (user, s\<lparr> users := map_set (users s) ident user,
                    userCurrentId := userCurrentId s + 1 \<rparr>))"

definition mem_createResetToken ::
    "zone \<Rightarrow> nat list \<Rightarrow> timestamp \<Rightarrow> mem \<Rightarrow> int \<Rightarrow> error + (string \<times> mem)" where
  "mem_createResetToken tz rnd now s userId =
     (case mem_getUser s userId of
        None \<Rightarrow> Inl (Error ''User not found'')
      | Some user \<Rightarrow>
          (let token = hex_encode rnd;
               expiry = setHours tz now (getHours tz now + 1);
               updatedUser = user\<lparr> u_resetToken := Some token,
                                   u_resetTokenExpiry := Some expiry \<rparr>
           in Inr (token, s\<lparr> users := map_set (users s) userId updatedUser \<rparr>)))"

definition mem_verifyResetToken :: "timestamp \<Rightarrow> mem \<Rightarrow> string \<Rightarrow> user option" where
  "mem_verifyResetToken now s token =
     (case find (\<lambda>u. u_resetToken u = Some token) (map_values (users s)) of
        None \<Rightarrow> None
      | Some user \<Rightarrow>
          (case u_resetTokenExpiry user of
             None \<Rightarrow> None
           | Some expiry \<Rightarrow> if expiry < now then None else Some user))"

definition mem_updatePassword :: "mem \<Rightarrow> int \<Rightarrow> string \<Rightarrow> bool \<times> mem" where
  "mem_updatePassword s userId password =
     (case mem_getUser s userId of
        None \<Rightarrow> (False, s)
      | Some user \<Rightarrow>
          (let updatedUser = user\<lparr> u_password := password, u_resetToken := None,
                                   u_resetTokenExpiry := None \<rparr>
           in (True, s\<lparr> users := map_set (users s) userId updatedUser \<rparr>)))"

definition mem_getContacts ::
    "zone \<Rightarrow> timestamp \<Rightarrow> timestamp \<Rightarrow> mem \<Rightarrow> int \<Rightarrow> contact_filters option \<Rightarrow>
     contact list" where
  "mem_getContacts tz now startDate0 s accountId filters =
     (let contacts0 = filter (\<lambda>c. c_accountId c = accountId) (map_values (contacts s))
      in case filters of
           None \<Rightarrow> contacts0
         | Some f \<Rightarrow>
             (let contacts1 =
                    (case or_null (cf_search f) of
                       Some search \<Rightarrow>
                         (let searchTerm = toLowerCase search
                          in filter (\<lambda>c. str_includes (toLowerCase (c_name c)) searchTerm \<or>
                                         str_includes (toLowerCase (c_mobile c)) searchTerm)
                               contacts0)
                     | None \<Rightarrow> contacts0);
                  contacts2 =
                    (case or_null (cf_label f) of
                       Some label \<Rightarrow> filter (\<lambda>c. c_label c = Some label) contacts1
                     | None \<Rightarrow> contacts1);
                  contacts3 =
                    (case or_null (cf_location f) of
                       Some location \<Rightarrow> filter (\<lambda>c. c_location c = Some location) contacts2
                     | None \<Rightarrow> contacts2);
                  contacts4 =
                    (case or_null (cf_dateRange f) of
                       Some dateRange \<Rightarrow>
                         (let startDate = dateRangeStart tz now startDate0 dateRange
                          in filter (\<lambda>c. c_createdAt c \<ge> startDate) contacts3)
                     | None \<Rightarrow> contacts3)
              in contacts4))"

definition mem_getContactById :: "mem \<Rightarrow> int \<Rightarrow> contact option" where
  "mem_getContactById s ident = map_get (contacts s) ident"

definition mem_getContactByMobile :: "mem \<Rightarrow> string \<Rightarrow> int \<Rightarrow> contact option" where
  "mem_getContactByMobile s mobile accountId =
     find (\<lambda>c. c_mobile c = mobile \<and> c_accountId c = accountId) (map_values (contacts s))"

definition mem_createContact :: "timestamp \<Rightarrow> mem \<Rightarrow> insert_contact \<Rightarrow> contact \<times> mem" where
  "mem_createContact now s insertContact =
     (let ident = contactCurrentId s;
          createdAt = now;
          contact = \<lparr> c_id = ident, c_accountId = ic_accountId insertContact,
                      c_name = ic_name insertContact, c_mobile = ic_mobile insertContact,
                      c_label = or_null (ic_label insertContact),
                      c_location = or_null (ic_location insertContact),
                      c_createdAt = createdAt \<rparr>
      in (contact, s\<lparr> contacts := map_set (contacts s) ident contact,
                       contactCurrentId := contactCurrentId s + 1 \<rparr>))"

fun mem_importLoop ::
    "(nat \<Rightarrow> timestamp) \<Rightarrow> bool \<Rightarrow> insert_contact list \<Rightarrow> nat \<Rightarrow> nat \<Rightarrow> mem \<Rightarrow>
     import_result \<times> mem" where
  "mem_importLoop clock deduplicateByMobile [] imp dup s =
     (\<lparr> imported = imp, duplicates = dup \<rparr>, s)"
| "mem_importLoop clock deduplicateByMobile (contact # rest) imp dup s =
     (if deduplicateByMobile then
        (case mem_getContactByMobile s (ic_mobile contact) (ic_accountId contact) of
           Some existing \<Rightarrow> mem_importLoop clock deduplicateByMobile rest imp (dup + 1) s
         | None \<Rightarrow>
             mem_importLoop clock deduplicateByMobile rest (imp + 1) dup
               (snd (mem_createContact (clock imp) s contact)))
      else mem_importLoop clock deduplicateByMobile rest (imp + 1) dup
             (snd (mem_createContact (clock imp) s contact)))"

definition mem_importContacts ::
    "(nat \<Rightarrow> timestamp) \<Rightarrow> mem \<Rightarrow> insert_contact list \<Rightarrow> bool \<Rightarrow> import_result \<times> mem" where
  "mem_importContacts clock s contactsList deduplicateByMobile =
     mem_importLoop clock deduplicateByMobile contactsList 0 0 s"

definition mem_getCampaigns ::
    "zone \<Rightarrow> timestamp \<Rightarrow> timestamp \<Rightarrow> mem \<Rightarrow> int \<Rightarrow> campaign_filters option \<Rightarrow>
     campaign list" where
  "mem_getCampaigns tz now startDate0 s accountId filters =
     (let campaigns0 = filter (\<lambda>c. cp_accountId c = accountId) (map_values (campaigns s))
      in case filters of
           None \<Rightarrow> campaigns0
         | Some f \<Rightarrow>
             (let campaigns1 =
                    (case or_null (pf_search f) of
                       Some search \<Rightarrow>
                         (let searchTerm = toLowerCase search
                          in filter (\<lambda>c. str_includes (toLowerCase (cp_name c)) searchTerm)
                               campaigns0)
                     | None \<Rightarrow> campaigns0);
                  campaigns2 =
                    (case or_null (pf_status f) of
                       Some status \<Rightarrow> filter (\<lambda>c. cp_status c = status) campaigns1
                     | None \<Rightarrow> campaigns1);
                  campaigns3 =
                    (case or_null (pf_dateRange f) of
                       Some dateRange \<Rightarrow>
                         (let startDate = dateRangeStart tz now startDate0 dateRange
                          in filter (\<lambda>c. cp_createdAt c \<ge> startDate) campaigns2)
                     | None \<Rightarrow> campaigns2)
              in campaigns3))"

definition mem_getCampaignById :: "mem \<Rightarrow> int \<Rightarrow> campaign option" where
  "mem_getCampaignById s ident = map_get (campaigns s) ident"

text \<open>
  \<open>scheduledFor\<close> is a \<open>Date\<close> object when present, which \<open>|| null\<close> leaves as it is.
\<close>

definition mem_createCampaign :: "timestamp \<Rightarrow> mem \<Rightarrow> insert_campaign \<Rightarrow> campaign \<times> mem" where
  "mem_createCampaign now s insertCampaign =
     (let ident = campaignCurrentId s;
          createdAt = now;
          campaign = \<lparr> cp_id = ident, cp_accountId = icp_accountId insertCampaign,
                       cp_name = icp_name insertCampaign,
                       cp_template = icp_template insertCampaign,
                       cp_contactLabel = or_null (icp_contactLabel insertCampaign),
                       cp_status = ''draft'',
                       cp_scheduledFor = icp_scheduledFor insertCampaign,
                       cp_createdAt = createdAt \<rparr>
      in (campaign, s\<lparr> campaigns := map_set (campaigns s) ident campaign,
                        campaignCurrentId := campaignCurrentId s + 1 \<rparr>))"

definition mem_getAnalytics :: "mem \<Rightarrow> int \<Rightarrow> int option \<Rightarrow> analytics list" where
  "mem_getAnalytics s accountId campaignId =
     (let analytics0 = filter (\<lambda>a. an_accountId a = accountId) (map_values (analyticsData s))
      in case campaignId of
           Some cid \<Rightarrow>
             (if cid \<noteq> 0 then filter (\<lambda>a. an_campaignId a = cid) analytics0 else analytics0)
         | None \<Rightarrow> analytics0)"

definition mem_createOrUpdateAnalytics ::
    "timestamp \<Rightarrow> mem \<Rightarrow> insert_analytics \<Rightarrow> analytics \<times> mem" where
  "mem_createOrUpdateAnalytics now s insertAnalytics =
     (case find (\<lambda>a. an_campaignId a = ia_campaignId insertAnalytics)
             (map_values (analyticsData s)) of
        Some existing \<Rightarrow>
          (let updated = existing\<lparr>
                 an_accountId := ia_accountId insertAnalytics,
                 an_campaignId := ia_campaignId insertAnalytics,
                 an_updatedAt := now,
                 an_sent := nullish (ia_sent insertAnalytics) (an_sent existing),
                 an_delivered := nullish (ia_delivered insertAnalytics) (an_delivered existing),
                 an_read := nullish (ia_read insertAnalytics) (an_read existing),
                 an_optout := nullish (ia_optout insertAnalytics) (an_optout existing),
                 an_hold := nullish (ia_hold insertAnalytics) (an_hold existing),
                 an_failed := nullish (ia_failed insertAnalytics) (an_failed existing) \<rparr>
           in (updated, s\<lparr> analyticsData :=
                               map_set (analyticsData s) (an_id existing) updated \<rparr>))
      | None \<Rightarrow>
          (let ident = analyticsCurrentId s;
               updatedAt = now;
               analytics = \<lparr> an_id = ident,
                              an_accountId = ia_accountId insertAnalytics,
                              an_campaignId = ia_campaignId insertAnalytics,
                              an_sent = or_zero (ia_sent insertAnalytics),
                              an_delivered = or_zero (ia_delivered insertAnalytics),
                              an_read = or_zero (ia_read insertAnalytics),
                              an_optout = or_zero (ia_optout insertAnalytics),
                              an_hold = or_zero (ia_hold insertAnalytics),
                              an_failed = or_zero (ia_failed insertAnalytics),
                              an_updatedAt = updatedAt \<rparr>
           in (analytics, s\<lparr> analyticsData := map_set (analyticsData s) ident analytics,
                             analyticsCurrentId := analyticsCurrentId s + 1 \<rparr>)))"

definition mem_launchCampaign :: "timestamp \<Rightarrow> mem \<Rightarrow> int \<Rightarrow> bool \<times> mem" where
  "mem_launchCampaign now s ident =
     (case map_get (campaigns s) ident of
        None \<Rightarrow> (False, s)
      | Some campaign \<Rightarrow>
          (let updatedCampaign = campaign\<lparr> cp_status := ''active'' \<rparr>;
               s1 = s\<lparr> campaigns := map_set (campaigns s) ident updatedCampaign \<rparr>
           in (True,
               snd (mem_createOrUpdateAnalytics now s1
                 \<lparr> ia_accountId = cp_accountId campaign, ia_campaignId = ident,
                   ia_sent = Some 0, ia_delivered = Some 0, ia_read = Some 0,
                   ia_optout = Some 0, ia_hold = Some 0, ia_failed = Some 0 \<rparr>))))"

subsection \<open>Well-formed stores\<close>

text \<open>
  The stores the methods produce from an empty one: a primary key occurs once in its
  table and lies below the sequence that hands out the next one, and no two analytics rows
  belong to one campaign.  A \<open>Map\<close> of \<open>MemStorage\<close> files every entity under its own id.
\<close>

definition table_wf :: "('r \<Rightarrow> int) \<Rightarrow> 'r list \<Rightarrow> int \<Rightarrow> bool" where
  "table_wf idf rows seq \<longleftrightarrow> distinct (map idf rows) \<and> (\<forall>r\<in>set rows. idf r < seq)"

definition db_wf :: "db \<Rightarrow> bool" where
  "db_wf s \<longleftrightarrow>
     table_wf u_id (db_users s) (db_users_seq s) \<and>
     table_wf c_id (db_contacts s) (db_contacts_seq s) \<and>
     table_wf cp_id (db_campaigns s) (db_campaigns_seq s) \<and>
     table_wf an_id (db_analytics s) (db_analytics_seq s) \<and>
     distinct (map an_campaignId (db_analytics s))"

definition keyed :: "('v \<Rightarrow> int) \<Rightarrow> 'v jsmap \<Rightarrow> bool" where
  "keyed idf m \<longleftrightarrow> (\<forall>e\<in>set m. idf (snd e) = fst e)"

text \<open>The entities a \<open>MemStorage\<close> holds, read as tables.\<close>

definition mem_rows :: "mem \<Rightarrow> db" where
  "mem_rows m =
     \<lparr> db_users = map_values (users m), db_contacts = map_values (contacts m),
       db_campaigns = map_values (campaigns m), db_analytics = map_values (analyticsData m),
       db_users_seq = userCurrentId m, db_contacts_seq = contactCurrentId m,
       db_campaigns_seq = campaignCurrentId m, db_analytics_seq = analyticsCurrentId m \<rparr>"

definition mem_wf :: "mem \<Rightarrow> bool" where
  "mem_wf m \<longleftrightarrow>
     keyed u_id (users m) \<and> keyed c_id (contacts m) \<and> keyed cp_id (campaigns m) \<and>
     keyed an_id (analyticsData m) \<and> db_wf (mem_rows m)"

subsection \<open>Notions the properties are stated with\<close>

text \<open>The analytics rows of one campaign.\<close>

definition analytics_of :: "int \<Rightarrow> analytics list \<Rightarrow> analytics list" where
  "analytics_of campaignId rows = filter (\<lambda>a. an_campaignId a = campaignId) rows"

definition zero_counters :: "analytics \<Rightarrow> bool" where
  "zero_counters a \<longleftrightarrow>
     an_sent a = 0 \<and> an_delivered a = 0 \<and> an_read a = 0 \<and>
     an_optout a = 0 \<and> an_hold a = 0 \<and> an_failed a = 0"

definition same_counters :: "analytics \<Rightarrow> analytics \<Rightarrow> bool" where
  "same_counters a b \<longleftrightarrow>
     an_sent a = an_sent b \<and> an_delivered a = an_delivered b \<and> an_read a = an_read b \<and>
     an_optout a = an_optout b \<and> an_hold a = an_hold b \<and> an_failed a = an_failed b"

text \<open>The deduplication key of a stored contact and of an input record.\<close>

definition contact_key :: "contact \<Rightarrow> string \<times> int" where
  "contact_key c = (c_mobile c, c_accountId c)"

definition insert_key :: "insert_contact \<Rightarrow> string \<times> int" where
  "insert_key c = (ic_mobile c, ic_accountId c)"

text \<open>
  The input records whose key is among \<open>seen\<close>: the keys in storage when the call is
  made.
\<close>

definition present_count :: "(string \<times> int) list \<Rightarrow> insert_contact list \<Rightarrow> nat" where
  "present_count seen cs = length (filter (\<lambda>c. insert_key c \<in> set seen) cs)"

text \<open>
  The input records whose key is among \<open>seen\<close> or belongs to an earlier record of the
  list.
\<close>

fun seen_count :: "(string \<times> int) list \<Rightarrow> insert_contact list \<Rightarrow> nat" where
  "seen_count seen [] = 0"
| "seen_count seen (c # cs) =
     (if insert_key c \<in> set seen then Suc (seen_count seen cs)
      else seen_count (insert_key c # seen) cs)"

text \<open>
  The row \<open>createOrUpdateAnalytics\<close> writes over an existing one, and the row it inserts
  under a new id.
\<close>

definition merge_analytics :: "timestamp \<Rightarrow> insert_analytics \<Rightarrow> analytics \<Rightarrow> analytics" where
  "merge_analytics now ia e = e\<lparr> an_accountId := ia_accountId ia,
       an_campaignId := ia_campaignId ia,
       an_updatedAt := now,
       an_sent := nullish (ia_sent ia) (an_sent e),
       an_delivered := nullish (ia_delivered ia) (an_delivered e),
       an_read := nullish (ia_read ia) (an_read e),
       an_optout := nullish (ia_optout ia) (an_optout e),
       an_hold := nullish (ia_hold ia) (an_hold e),
       an_failed := nullish (ia_failed ia) (an_failed e) \<rparr>"

definition new_analytics :: "timestamp \<Rightarrow> insert_analytics \<Rightarrow> int \<Rightarrow> analytics" where
  "new_analytics now ia k = \<lparr> an_id = k,
       an_accountId = ia_accountId ia,
       an_campaignId = ia_campaignId ia,
       an_sent = or_zero (ia_sent ia),
       an_delivered = or_zero (ia_delivered ia),
       an_read = or_zero (ia_read ia),
       an_optout = or_zero (ia_optout ia),
       an_hold = or_zero (ia_hold ia),
       an_failed = or_zero (ia_failed ia),
       an_updatedAt = now \<rparr>"

text \<open>
  A counter after a write: the value supplied, or the old one where none was supplied.
\<close>

definition kept_or_set :: "int option \<Rightarrow> int \<Rightarrow> int \<Rightarrow> bool" where
  "kept_or_set supplied old new \<longleftrightarrow> (case supplied of None \<Rightarrow> new = old | Some v \<Rightarrow> new = v)"

text \<open>
  The six counters of a row \<open>r\<close> written over \<open>e\<close>, and of a row inserted, each
  counter taken against the input.
\<close>

definition counters_merged :: "insert_analytics \<Rightarrow> analytics \<Rightarrow> analytics \<Rightarrow> bool" where
  "counters_merged ia e r \<longleftrightarrow>
     kept_or_set (ia_sent ia) (an_sent e) (an_sent r) \<and>
     kept_or_set (ia_delivered ia) (an_delivered e) (an_delivered r) \<and>
     kept_or_set (ia_read ia) (an_read e) (an_read r) \<and>
     kept_or_set (ia_optout ia) (an_optout e) (an_optout r) \<and>
     kept_or_set (ia_hold ia) (an_hold e) (an_hold r) \<and>
     kept_or_set (ia_failed ia) (an_failed e) (an_failed r)"

definition counters_defaulted :: "insert_analytics \<Rightarrow> analytics \<Rightarrow> bool" where
  "counters_defaulted ia r \<longleftrightarrow>
     kept_or_set (ia_sent ia) 0 (an_sent r) \<and>
     kept_or_set (ia_delivered ia) 0 (an_delivered r) \<and>
     kept_or_set (ia_read ia) 0 (an_read r) \<and>
     kept_or_set (ia_optout ia) 0 (an_optout r) \<and>
     kept_or_set (ia_hold ia) 0 (an_hold r) \<and>
     kept_or_set (ia_failed ia) 0 (an_failed r)"

text \<open>
  The inputs \<open>{sent: 5}\<close> and \<open>{delivered: 3}\<close> for a campaign, and the input with six
  zeros that \<open>launchCampaign\<close> passes.
\<close>

definition sent_five :: "int \<Rightarrow> int \<Rightarrow> insert_analytics" where
  "sent_five accountId campaignId =
     \<lparr> ia_accountId = accountId, ia_campaignId = campaignId, ia_sent = Some 5,
       ia_delivered = None, ia_read = None, ia_optout = None, ia_hold = None,
       ia_failed = None \<rparr>"

definition delivered_three :: "int \<Rightarrow> int \<Rightarrow> insert_analytics" where
  "delivered_three accountId campaignId =
     \<lparr> ia_accountId = accountId, ia_campaignId = campaignId, ia_sent = None,
       ia_delivered = Some 3, ia_read = None, ia_optout = None, ia_hold = None,
       ia_failed = None \<rparr>"

definition zero_input :: "int \<Rightarrow> int \<Rightarrow> insert_analytics" where
  "zero_input accountId campaignId =
     \<lparr> ia_accountId = accountId, ia_campaignId = campaignId,
       ia_sent = Some 0, ia_delivered = Some 0, ia_read = Some 0,
       ia_optout = Some 0, ia_hold = Some 0, ia_failed = Some 0 \<rparr>"

text \<open>
  The records of the list that are not counted as duplicates, in the order of the list: a
  record is dropped where its key is among \<open>seen\<close> or belongs to an earlier record.
\<close>

fun kept_records :: "(string \<times> int) list \<Rightarrow> insert_contact list \<Rightarrow> insert_contact list" where
  "kept_records seen [] = []"
| "kept_records seen (c # cs) =
     (if insert_key c \<in> set seen then kept_records seen cs
      else c # kept_records (insert_key c # seen) cs)"

text \<open>
  The contact \<open>createContact\<close> stores for an input under the id \<open>k\<close> at the clock
  reading \<open>now\<close>, and the contacts stored for a list of inputs, one after the other:
  the \<open>i\<close>-th creation takes the reading \<open>clock i\<close> and the next id.
\<close>

definition contact_row :: "timestamp \<Rightarrow> int \<Rightarrow> insert_contact \<Rightarrow> contact" where
  "contact_row now k c =
     \<lparr> c_id = k, c_accountId = ic_accountId c, c_name = ic_name c, c_mobile = ic_mobile c,
       c_label = or_null (ic_label c), c_location = or_null (ic_location c),
       c_createdAt = now \<rparr>"

fun stored_rows :: "(nat \<Rightarrow> timestamp) \<Rightarrow> nat \<Rightarrow> int \<Rightarrow> insert_contact list \<Rightarrow> contact list" where
  "stored_rows clock i k [] = []"
| "stored_rows clock i k (c # cs) =
     contact_row (clock i) k c # stored_rows clock (i + 1) (k + 1) cs"

text \<open>A zone whose offset never changes.\<close>

definition fixed_zone :: "int \<Rightarrow> zone" where
  "fixed_zone k = \<lparr> utc_offset = (\<lambda>t. k), local_offset = (\<lambda>t. k) \<rparr>"






subsection \<open>Example inputs and stores\<close>

text \<open>
  A campaign input that asks for status \<open>active\<close> and carries an empty contact label;
  the campaign it becomes; a stored campaign with another status.
\<close>

definition campaign_input :: insert_campaign where
  "campaign_input = \<lparr> icp_accountId = 1, icp_name = ''Spring sale'', icp_template = ''promo'',
     icp_contactLabel = Some [], icp_status = Some ''active'', icp_scheduledFor = None \<rparr>"

definition draft_campaign :: campaign where
  "draft_campaign = \<lparr> cp_id = 1, cp_accountId = 1, cp_name = ''Spring sale'',
     cp_template = ''promo'', cp_contactLabel = None, cp_status = ''draft'',
     cp_scheduledFor = None, cp_createdAt = 7 \<rparr>"

definition paused_campaign :: campaign where
  "paused_campaign = \<lparr> cp_id = 1, cp_accountId = 1, cp_name = ''Spring sale'',
     cp_template = ''promo'', cp_contactLabel = None, cp_status = ''paused'',
     cp_scheduledFor = None, cp_createdAt = 7 \<rparr>"

definition db_paused :: db where
  "db_paused = db_empty\<lparr> db_campaigns := [paused_campaign], db_campaigns_seq := 2 \<rparr>"

definition mem_paused :: mem where
  "mem_paused = mem_empty\<lparr> campaigns := [(1, paused_campaign)], campaignCurrentId := 2 \<rparr>"

text \<open>A stored user holding a reset token that expires at instant 100.\<close>

definition reset_user :: user where
  "reset_user = \<lparr> u_id = 1, u_username = ''dana'', u_email = None, u_password = ''old'',
     u_resetToken = Some ''ab12'', u_resetTokenExpiry = Some 100, u_createdAt = 7 \<rparr>"

definition db_reset :: db where
  "db_reset = db_empty\<lparr> db_users := [reset_user], db_users_seq := 2 \<rparr>"

definition mem_reset :: mem where
  "mem_reset = mem_empty\<lparr> users := [(1, reset_user)], userCurrentId := 2 \<rparr>"

text \<open>
  The stores after \<open>createCampaign\<close> and \<open>createOrUpdateAnalytics\<close> with
  \<open>{sent: 5}\<close> for the new campaign.
\<close>

definition db_counted :: db where
  "db_counted =
     snd (db_createOrUpdateAnalytics 8 (snd (db_createCampaign 7 db_empty campaign_input))
       (sent_five 1 1))"

definition mem_counted :: mem where
  "mem_counted =
     snd (mem_createOrUpdateAnalytics 8 (snd (mem_createCampaign 7 mem_empty campaign_input))
       (sent_five 1 1))"

text \<open>
  A zone that keeps daylight saving time: five hours behind until the instant
  1710054000000 (the 10th of March 2024, 2 o'clock local time), four hours behind from
  then on.  The local hour that the switch skips is read with the earlier offset.
\<close>

definition eastern :: zone where
  "eastern =
     \<lparr> utc_offset = (\<lambda>t. if t < 1710054000000 then - 18000000 else - 14400000),
       local_offset = (\<lambda>t. if t < 1710039600000 then - 18000000 else - 14400000) \<rparr>"

text \<open>
  Two contact inputs with different mobile numbers, a third with the mobile number of the
  first under another name, and the stores holding the first.
\<close>

definition bob :: insert_contact where
  "bob = \<lparr> ic_accountId = 1, ic_name = ''Bob'', ic_mobile = ''555'', ic_label = None,
     ic_location = None \<rparr>"

definition robert :: insert_contact where
  "robert = \<lparr> ic_accountId = 1, ic_name = ''Robert'', ic_mobile = ''555'', ic_label = None,
     ic_location = None \<rparr>"

definition carol :: insert_contact where
  "carol = \<lparr> ic_accountId = 1, ic_name = ''Carol'', ic_mobile = ''777'', ic_label = None,
     ic_location = None \<rparr>"

definition db_bob :: db where
  "db_bob = snd (db_createContact 7 db_empty bob)"

definition mem_bob :: mem where
  "mem_bob = snd (mem_createContact 7 mem_empty bob)"

text \<open>
  Two contacts whose names contain the letter a, one of them labelled \<open>vip\<close>; the
  stores after creating both; three filter objects.
\<close>

definition alice :: insert_contact where
  "alice = \<lparr> ic_accountId = 1, ic_name = ''alice'', ic_mobile = ''100'',
     ic_label = Some ''vip'', ic_location = None \<rparr>"

definition anna :: insert_contact where
  "anna = \<lparr> ic_accountId = 1, ic_name = ''anna'', ic_mobile = ''200'', ic_label = None,
     ic_location = None \<rparr>"

definition alice_row :: contact where
  "alice_row = \<lparr> c_id = 1, c_accountId = 1, c_name = ''alice'', c_mobile = ''100'',
     c_label = Some ''vip'', c_location = None, c_createdAt = 7 \<rparr>"

definition anna_row :: contact where
  "anna_row = \<lparr> c_id = 2, c_accountId = 1, c_name = ''anna'', c_mobile = ''200'',
     c_label = None, c_location = None, c_createdAt = 8 \<rparr>"

definition db_two :: db where
  "db_two = snd (db_createContact 8 (snd (db_createContact 7 db_empty alice)) anna)"

definition mem_two :: mem where
  "mem_two = snd (mem_createContact 8 (snd (mem_createContact 7 mem_empty alice)) anna)"

definition search_and_label :: contact_filters where
  "search_and_label =
     \<lparr> cf_search = Some ''a'', cf_label = Some ''vip'', cf_location = None,
       cf_dateRange = None \<rparr>"

definition search_only :: contact_filters where
  "search_only =
     \<lparr> cf_search = Some ''a'', cf_label = None, cf_location = None, cf_dateRange = None \<rparr>"

definition search_upper :: contact_filters where
  "search_upper =
     \<lparr> cf_search = Some ''A'', cf_label = None, cf_location = None, cf_dateRange = None \<rparr>"

text \<open>Two campaign filter objects, one with a search term and a status.\<close>

definition search_and_status :: campaign_filters where
  "search_and_status =
     \<lparr> pf_search = Some ''Spring'', pf_status = Some ''active'', pf_dateRange = None \<rparr>"

definition campaign_search_only :: campaign_filters where
  "campaign_search_only =
     \<lparr> pf_search = Some ''Spring'', pf_status = None, pf_dateRange = None \<rparr>"

text \<open>A clock that advances by one millisecond from one reading to the next.\<close>

definition ticks :: "nat \<Rightarrow> timestamp" where
  "ticks i = 9 + int i"

section \<open>Properties\<close>

subsection \<open>The JavaScript Map as a list of values\<close>

lemma find_first_row: "find p xs = first_row (filter p xs)"
  by (induction xs) auto

lemma first_row_None_iff: "first_row rs = None \<longleftrightarrow> rs = []"
  by (cases rs) auto

lemma keyed_keys: "keyed idf m \<Longrightarrow> map fst m = map idf (map snd m)"
  by (induction m) (auto simp: keyed_def)

lemma keyed_get:
  "keyed idf m \<Longrightarrow> map_get m k = first_row (filter (\<lambda>v. idf v = k) (map_values m))"
  by (induction m) (auto simp: keyed_def map_get_def map_values_def)

lemma map_set_fresh: "k \<notin> fst ` set m \<Longrightarrow> map_set m k v = m @ [(k, v)]"
  by (induction m) (auto simp: map_set_def)

lemma map_set_present:
  "keyed idf m \<Longrightarrow> distinct (map fst m) \<Longrightarrow> idf v = k \<Longrightarrow> k \<in> fst ` set m \<Longrightarrow>
   map_values (map_set m k v) = map (\<lambda>r. if idf r = k then v else r) (map_values m)"
proof (induction m)
  case Nil
  then show ?case by simp
next
  case (Cons e m)
  show ?case
  proof (cases "fst e = k")
    case True
    with Cons.prems have "k \<notin> fst ` set m" by auto
    with Cons.prems(1) have "\<forall>r\<in>set (map snd m). idf r \<noteq> k"
      by (force simp: keyed_def)
    then have "map (\<lambda>r. if idf r = k then v else r) (map snd m) = map snd m"
      by (simp add: map_idI)
    with True Cons.prems show ?thesis
      by (cases e) (auto simp: map_set_def map_values_def keyed_def)
  next
    case False
    with Cons show ?thesis
      by (cases e) (auto simp: map_set_def map_values_def keyed_def)
  qed
qed

lemma keyed_set: "keyed idf m \<Longrightarrow> idf v = k \<Longrightarrow> keyed idf (map_set m k v)"
  by (induction m) (auto simp: keyed_def map_set_def)

lemma keyed_fresh:
  "keyed idf m \<Longrightarrow> \<forall>r\<in>set (map_values m). idf r < k \<Longrightarrow> k \<notin> fst ` set m"
  by (force simp: keyed_def map_values_def)

lemma keyed_distinct:
  "keyed idf m \<Longrightarrow> distinct (map idf (map_values m)) \<Longrightarrow> distinct (map fst m)"
  by (simp add: keyed_keys map_values_def)

lemma keyed_present:
  "keyed idf m \<Longrightarrow> map_get m k = Some v \<Longrightarrow> k \<in> fst ` set m \<and> idf v = k \<and> v \<in> set (map_values m)"
  by (induction m) (auto simp: keyed_def map_get_def map_values_def split: if_splits)

subsection \<open>Tables\<close>

lemma update_where_none:
  "\<forall>r\<in>set rows. \<not> p r \<Longrightarrow> update_where p f rows = ([], rows)"
  by (induction rows) (auto simp: update_where_def)

lemma select_none:
  "first_row (select_where p rows) = None \<Longrightarrow> \<forall>r\<in>set rows. \<not> p r"
  by (auto simp: first_row_None_iff select_where_def filter_empty_conv)

lemma select_some:
  "first_row (select_where p rows) = Some r \<Longrightarrow> r \<in> set rows \<and> p r"
proof -
  assume a: "first_row (select_where p rows) = Some r"
  then obtain rest where "filter p rows = r # rest"
    by (cases "filter p rows") (auto simp: select_where_def)
  then have "r \<in> set (filter p rows)" by simp
  then show ?thesis by simp
qed

lemma first_row_update:
  assumes "\<And>r. p r \<Longrightarrow> p (f r)"
  shows "first_row (filter p (map (\<lambda>r. if p r then f r else r) rows)) =
         map_option f (first_row (filter p rows))"
  using assms by (induction rows) auto

lemma unique_row:
  "distinct (map idf rows) \<Longrightarrow> r \<in> set rows \<Longrightarrow> filter (\<lambda>x. idf x = idf r) rows = [r]"
proof (induction rows)
  case Nil
  then show ?case by simp
next
  case (Cons x rows)
  show ?case
  proof (cases "x = r")
    case True
    with Cons.prems have "idf r \<notin> idf ` set rows" by simp
    then have "\<forall>y\<in>set rows. idf y \<noteq> idf r" by (metis imageI)
    then have "filter (\<lambda>x. idf x = idf r) rows = []" by (simp add: filter_empty_conv)
    with True show ?thesis by simp
  next
    case False
    with Cons.prems have r: "r \<in> set rows" by simp
    with Cons.prems have "idf x \<noteq> idf r" by (metis distinct.simps(2) imageI list.simps(9) set_map)
    note r this
    with Cons show ?thesis by simp
  qed
qed

lemma update_unique_row:
  assumes "distinct (map idf rows)" and "r \<in> set rows"
  shows "map (\<lambda>x. if idf x = idf r then f x else x) rows =
         map (\<lambda>x. if idf x = idf r then f r else x) rows"
proof -
  have "\<forall>x\<in>set rows. idf x = idf r \<longrightarrow> x = r"
  proof (intro ballI impI)
    fix x assume "x \<in> set rows" "idf x = idf r"
    then have "x \<in> set (filter (\<lambda>x. idf x = idf r) rows)" by simp
    then show "x = r" using unique_row [OF assms] by simp
  qed
  then show ?thesis by auto
qed

lemma update_keeps_column:
  "(\<And>r. p r \<Longrightarrow> g (f r) = g r) \<Longrightarrow> map g (map (\<lambda>r. if p r then f r else r) rows) = map g rows"
  by (induction rows) auto

lemma filter_updated:
  "(\<And>r. p r \<Longrightarrow> \<not> q (f r)) \<Longrightarrow>
   filter q (map (\<lambda>r. if p r then f r else r) rows) = filter (\<lambda>r. q r \<and> \<not> p r) rows"
  by (induction rows) auto

lemma table_wf_insert:
  "table_wf idf rows seq \<Longrightarrow> idf row = seq \<Longrightarrow> table_wf idf (rows @ [row]) (seq + 1)"
  by (force simp: table_wf_def)

lemma table_wf_update:
  assumes "table_wf idf rows seq" and "\<And>r. p r \<Longrightarrow> idf (f r) = idf r"
  shows "table_wf idf (map (\<lambda>r. if p r then f r else r) rows) seq"
proof -
  have "map idf (map (\<lambda>r. if p r then f r else r) rows) = map idf rows"
    using assms(2) by (rule update_keeps_column)
  moreover have "\<forall>r\<in>set (map (\<lambda>r. if p r then f r else r) rows). idf r < seq"
    using assms by (auto simp: table_wf_def)
  ultimately show ?thesis
    using assms(1) unfolding table_wf_def by metis
qed

subsection \<open>Well-formedness is kept\<close>

lemma db_empty_wf: "db_wf db_empty"
  by (simp add: db_wf_def db_empty_def table_wf_def)

lemma db_createUser_wf: "db_wf s \<Longrightarrow> db_wf (snd (db_createUser now s iu))"
  by (simp add: db_wf_def db_createUser_def Let_def table_wf_insert)

lemma db_createContact_wf: "db_wf s \<Longrightarrow> db_wf (snd (db_createContact now s ic))"
  by (simp add: db_wf_def db_createContact_def Let_def table_wf_insert)

lemma db_createCampaign_wf: "db_wf s \<Longrightarrow> db_wf (snd (db_createCampaign now s ic))"
  by (simp add: db_wf_def db_createCampaign_def Let_def table_wf_insert)

lemma db_updatePassword_wf: "db_wf s \<Longrightarrow> db_wf (snd (db_updatePassword s userId pw))"
  by (simp add: db_wf_def db_updatePassword_def update_where_def table_wf_update)

lemma db_createResetToken_wf:
  "db_wf s \<Longrightarrow> db_createResetToken tz rnd now s userId = Inr (t, s') \<Longrightarrow> db_wf s'"
  by (auto simp: db_wf_def db_createResetToken_def update_where_def table_wf_update Let_def
      split: option.splits if_splits)

lemma db_importLoop_wf:
  "db_wf s \<Longrightarrow> db_wf (snd (db_importLoop clock dd cs imp dup s))"
  by (induction cs arbitrary: imp dup s) (auto simp: db_createContact_wf split: option.splits)

lemma db_importContacts_wf: "db_wf s \<Longrightarrow> db_wf (snd (db_importContacts clock s cs dd))"
  by (simp add: db_importContacts_def db_importLoop_wf)

subsection \<open>The analytics upsert\<close>

lemma only_row:
  assumes "distinct (map idf rows)" and "r \<in> set rows" and "x \<in> set rows" and "idf x = idf r"
  shows "x = r"
proof -
  from assms(3,4) have "x \<in> set (filter (\<lambda>x. idf x = idf r) rows)" by simp
  then show ?thesis using unique_row [OF assms(1,2)] by simp
qed

lemma filter_distinct_column:
  assumes "distinct (map g rows)"
  shows "filter (\<lambda>x. g x = k) rows = [] \<or> (\<exists>e. e \<in> set rows \<and> g e = k \<and> filter (\<lambda>x. g x = k) rows = [e])"
proof (cases "filter (\<lambda>x. g x = k) rows")
  case Nil
  then show ?thesis by simp
next
  case (Cons e rest)
  then have "e \<in> set (filter (\<lambda>x. g x = k) rows)" by simp
  then have e: "e \<in> set rows" "g e = k" by simp_all
  with unique_row [OF assms e(1)] show ?thesis by auto
qed

lemma db_upsert_insert:
  assumes "analytics_of (ia_campaignId ia) (db_analytics s) = []"
  shows "db_createOrUpdateAnalytics now s ia =
         (Some (new_analytics now ia (db_analytics_seq s)),
          s\<lparr> db_analytics := db_analytics s @ [new_analytics now ia (db_analytics_seq s)],
             db_analytics_seq := db_analytics_seq s + 1 \<rparr>)"
  using assms
  by (simp add: db_createOrUpdateAnalytics_def analytics_of_def select_where_def new_analytics_def
      Let_def)

lemma db_upsert_update:
  assumes wf: "distinct (map an_id (db_analytics s))"
    and e: "analytics_of (ia_campaignId ia) (db_analytics s) = e # rest"
  shows "db_createOrUpdateAnalytics now s ia =
         (Some (merge_analytics now ia e),
          s\<lparr> db_analytics :=
               map (\<lambda>a. if an_id a = an_id e then merge_analytics now ia e else a) (db_analytics s) \<rparr>)"
proof -
  let ?rows = "db_analytics s"
  let ?f = "\<lambda>a. a\<lparr> an_accountId := ia_accountId ia,
       an_campaignId := ia_campaignId ia,
       an_updatedAt := now,
       an_sent := nullish (ia_sent ia) (an_sent e),
       an_delivered := nullish (ia_delivered ia) (an_delivered e),
       an_read := nullish (ia_read ia) (an_read e),
       an_optout := nullish (ia_optout ia) (an_optout e),
       an_hold := nullish (ia_hold ia) (an_hold e),
       an_failed := nullish (ia_failed ia) (an_failed e) \<rparr>"
  from e have "e \<in> set (analytics_of (ia_campaignId ia) ?rows)" by simp
  then have mem: "e \<in> set ?rows" by (simp add: analytics_of_def)
  have fe: "?f e = merge_analytics now ia e" by (simp add: merge_analytics_def)
  have rows: "map (\<lambda>a. if an_id a = an_id e then ?f a else a) ?rows =
        map (\<lambda>a. if an_id a = an_id e then merge_analytics now ia e else a) ?rows"
    using update_unique_row [OF wf mem, of ?f] fe by simp
  have "filter (\<lambda>a. an_id a = an_id e) ?rows = [e]"
    using unique_row [OF wf mem] .
  then have res: "map ?f (filter (\<lambda>a. an_id a = an_id e) ?rows) = [merge_analytics now ia e]"
    using fe by simp
  show ?thesis
    using e rows res
    by (simp add: db_createOrUpdateAnalytics_def analytics_of_def select_where_def
        update_where_def)
qed

lemma analytics_of_after_update:
  assumes ids: "distinct (map an_id rows)" and cs: "distinct (map an_campaignId rows)"
    and e: "e \<in> set rows" and k: "an_campaignId e = k" and m: "an_campaignId m = k"
  shows "analytics_of k (map (\<lambda>a. if an_id a = an_id e then m else a) rows) = [m]"
proof -
  have d: "distinct rows" using ids by (simp add: distinct_map)
  have a: "\<forall>x\<in>set rows. (an_campaignId (if an_id x = an_id e then m else x) = k) = (x = e)"
  proof
    fix x assume x: "x \<in> set rows"
    show "(an_campaignId (if an_id x = an_id e then m else x) = k) = (x = e)"
      using only_row [OF ids e x] only_row [OF cs e x] k m by auto
  qed
  have "filter (\<lambda>x. an_campaignId x = k) (map (\<lambda>a. if an_id a = an_id e then m else a) rows)
      = map (\<lambda>a. if an_id a = an_id e then m else a) (filter (\<lambda>x. x = e) rows)"
    using a by (simp add: filter_map comp_def cong: filter_cong)
  also have "filter (\<lambda>x. x = e) rows = [e]"
    using d e by (induction rows) (auto simp: filter_empty_conv)
  finally show ?thesis by (simp add: analytics_of_def)
qed

lemma analytics_update_campaignIds:
  assumes ids: "distinct (map an_id rows)"
    and e: "e \<in> set rows" and m: "an_campaignId m = an_campaignId e"
  shows "map an_campaignId (map (\<lambda>a. if an_id a = an_id e then m else a) rows) =
         map an_campaignId rows"
proof -
  have "\<forall>x\<in>set rows. an_campaignId (if an_id x = an_id e then m else x) = an_campaignId x"
    using only_row [OF ids e] m by auto
  then show ?thesis by simp
qed

lemma db_createOrUpdateAnalytics_wf:
  assumes "db_wf s"
  shows "db_wf (snd (db_createOrUpdateAnalytics now s ia))"
proof (cases "analytics_of (ia_campaignId ia) (db_analytics s)")
  case Nil
  then have "ia_campaignId ia \<notin> set (map an_campaignId (db_analytics s))"
    by (auto simp: analytics_of_def filter_empty_conv)
  with assms show ?thesis
    by (simp add: db_upsert_insert [OF Nil] db_wf_def table_wf_insert new_analytics_def)
next
  case (Cons e rest)
  from assms have ids: "distinct (map an_id (db_analytics s))"
    by (simp add: db_wf_def table_wf_def)
  from Cons have "e \<in> set (analytics_of (ia_campaignId ia) (db_analytics s))" by simp
  then have e: "e \<in> set (db_analytics s)" "an_campaignId e = ia_campaignId ia"
    by (simp_all add: analytics_of_def)
  have m: "an_campaignId (merge_analytics now ia e) = an_campaignId e" "an_id (merge_analytics now ia e) = an_id e"
    using e by (simp_all add: merge_analytics_def)
  have "table_wf an_id (map (\<lambda>a. if an_id a = an_id e then (\<lambda>_. merge_analytics now ia e) a else a) (db_analytics s))
      (db_analytics_seq s)"
    using assms m by (intro table_wf_update) (simp_all add: db_wf_def)
  with assms show ?thesis
    by (simp add: db_upsert_update [OF ids Cons] db_wf_def
        analytics_update_campaignIds [OF ids e(1) m(1)] del: map_map)
qed

lemma db_createOrUpdateAnalytics_campaigns:
  "db_campaigns (snd (db_createOrUpdateAnalytics now s ia)) = db_campaigns s"
  by (simp add: db_createOrUpdateAnalytics_def Let_def update_where_def split: list.splits)

lemma db_launchCampaign_wf:
  assumes "db_wf s"
  shows "db_wf (snd (db_launchCampaign now s ident))"
proof -
  let ?s1 = "s\<lparr> db_campaigns := map (\<lambda>c. if cp_id c = ident then c\<lparr> cp_status := ''active'' \<rparr> else c)
      (db_campaigns s) \<rparr>"
  have "table_wf cp_id (db_campaigns ?s1) (db_campaigns_seq s)"
    using assms by (simp add: db_wf_def table_wf_update)
  with assms have wf1: "db_wf ?s1" by (simp add: db_wf_def)
  show ?thesis
    using wf1 db_createOrUpdateAnalytics_wf [OF wf1]
    by (simp add: db_launchCampaign_def update_where_def split: list.splits)
qed

subsection \<open>MemStorage against DatabaseStorage\<close>

lemma map_set_update:
  assumes k: "keyed idf m" and d: "distinct (map idf (map_values m))"
    and g: "map_get m k = Some u" and f: "\<And>r. idf (f r) = idf r"
  shows "update_where (\<lambda>r. idf r = k) f (map_values m) = ([f u], map_values (map_set m k (f u)))"
proof -
  from keyed_present [OF k g] have p: "k \<in> fst ` set m" "idf u = k" "u \<in> set (map_values m)"
    by simp_all
  have "map_values (map_set m k (f u)) = map (\<lambda>r. if idf r = k then f u else r) (map_values m)"
    using k keyed_distinct [OF k d] _ p(1) by (rule map_set_present) (simp add: f p(2))
  also have "\<dots> = map (\<lambda>r. if idf r = k then f r else r) (map_values m)"
    using update_unique_row [OF d p(3), of f] p(2) by simp
  finally have 1: "map_values (map_set m k (f u)) = map (\<lambda>r. if idf r = k then f r else r) (map_values m)" .
  have 2: "filter (\<lambda>r. idf r = k) (map_values m) = [u]"
    using unique_row [OF d p(3)] p(2) by simp
  show ?thesis by (simp add: update_where_def 1 2)
qed

lemma map_get_none_update:
  assumes k: "keyed idf m" and g: "map_get m k = None"
  shows "update_where (\<lambda>r. idf r = k) f (map_values m) = ([], map_values m)"
proof -
  have "first_row (select_where (\<lambda>v. idf v = k) (map_values m)) = None"
    using keyed_get [OF k, of k] g by (simp add: select_where_def)
  then show ?thesis by (intro update_where_none select_none)
qed

lemma map_set_insert:
  assumes "keyed idf m" and "table_wf idf (map_values m) seq"
  shows "map_values (map_set m seq v) = map_values m @ [v]"
proof -
  have "seq \<notin> fst ` set m"
    using assms by (intro keyed_fresh [of idf]) (auto simp: table_wf_def)
  then show ?thesis by (simp add: map_set_fresh map_values_def)
qed

lemma mem_wf_users: "mem_wf m \<Longrightarrow> keyed u_id (users m) \<and> table_wf u_id (map_values (users m)) (userCurrentId m)"
  and mem_wf_contacts: "mem_wf m \<Longrightarrow> keyed c_id (contacts m) \<and> table_wf c_id (map_values (contacts m)) (contactCurrentId m)"
  and mem_wf_campaigns: "mem_wf m \<Longrightarrow> keyed cp_id (campaigns m) \<and> table_wf cp_id (map_values (campaigns m)) (campaignCurrentId m)"
  and mem_wf_analytics: "mem_wf m \<Longrightarrow> keyed an_id (analyticsData m) \<and> table_wf an_id (map_values (analyticsData m)) (analyticsCurrentId m)"
  by (simp_all add: mem_wf_def db_wf_def mem_rows_def)

lemma mem_wf_db: "mem_wf m \<Longrightarrow> db_wf (mem_rows m)"
  by (simp add: mem_wf_def)

lemma mem_empty_wf: "mem_wf mem_empty"
  by (simp add: mem_wf_def mem_empty_def keyed_def mem_rows_def db_wf_def table_wf_def map_values_def)

lemma mem_empty_rows: "mem_rows mem_empty = db_empty"
  by (simp add: mem_empty_def mem_rows_def db_empty_def map_values_def)

lemma sim_getUser: "mem_wf m \<Longrightarrow> mem_getUser m k = db_getUser (mem_rows m) k"
  using keyed_get [of u_id "users m" k]
  by (simp add: mem_getUser_def db_getUser_def mem_rows_def select_where_def mem_wf_def)

lemma sim_getContactById: "mem_wf m \<Longrightarrow> mem_getContactById m k = db_getContactById (mem_rows m) k"
  using keyed_get [of c_id "contacts m" k]
  by (simp add: mem_getContactById_def db_getContactById_def mem_rows_def select_where_def mem_wf_def)

lemma sim_getCampaignById: "mem_wf m \<Longrightarrow> mem_getCampaignById m k = db_getCampaignById (mem_rows m) k"
  using keyed_get [of cp_id "campaigns m" k]
  by (simp add: mem_getCampaignById_def db_getCampaignById_def mem_rows_def select_where_def mem_wf_def)

lemma sim_getUserByUsername: "mem_getUserByUsername m n = db_getUserByUsername (mem_rows m) n"
  by (simp add: mem_getUserByUsername_def db_getUserByUsername_def mem_rows_def select_where_def
      find_first_row)

lemma sim_getUserByEmail: "mem_getUserByEmail m n = db_getUserByEmail (mem_rows m) n"
  by (simp add: mem_getUserByEmail_def db_getUserByEmail_def mem_rows_def select_where_def
      find_first_row)

lemma sim_getContactByMobile:
  "mem_getContactByMobile m mobile a = db_getContactByMobile (mem_rows m) mobile a"
  by (simp add: mem_getContactByMobile_def db_getContactByMobile_def mem_rows_def select_where_def
      find_first_row)

lemma sim_verifyResetToken:
  "mem_verifyResetToken now m t = db_verifyResetToken now (mem_rows m) t"
  by (cases "filter (\<lambda>u. u_resetToken u = Some t) (map_values (users m))")
     (simp_all add: mem_verifyResetToken_def db_verifyResetToken_def mem_rows_def select_where_def
      find_first_row)

lemma sim_getAnalytics: "mem_getAnalytics m a c = db_getAnalytics (mem_rows m) a c"
  by (simp add: mem_getAnalytics_def db_getAnalytics_def mem_rows_def select_where_def Let_def
      split: option.splits)

lemma sim_updatePassword:
  assumes "mem_wf m"
  shows "apsnd mem_rows (mem_updatePassword m k pw) = db_updatePassword (mem_rows m) k pw"
proof (cases "map_get (users m) k")
  case None
  from map_get_none_update [OF _ None, of u_id] mem_wf_users [OF assms]
  show ?thesis using None
    by (simp add: mem_updatePassword_def db_updatePassword_def mem_getUser_def mem_rows_def)
next
  case (Some u)
  let ?f = "\<lambda>u. u\<lparr> u_password := pw, u_resetToken := None, u_resetTokenExpiry := None \<rparr>"
  from mem_wf_users [OF assms] have "keyed u_id (users m)" "distinct (map u_id (map_values (users m)))"
    by (simp_all add: table_wf_def)
  from map_set_update [OF this Some, of ?f]
  show ?thesis using Some
    by (simp add: mem_updatePassword_def db_updatePassword_def mem_getUser_def mem_rows_def)
qed

lemma sim_createResetToken:
  assumes "mem_wf m"
  shows "map_sum (\<lambda>e. e) (apsnd mem_rows) (mem_createResetToken tz rnd now m k) =
         db_createResetToken tz rnd now (mem_rows m) k"
proof (cases "map_get (users m) k")
  case None
  then have "db_getUser (mem_rows m) k = None"
    using sim_getUser [OF assms, of k] by (simp add: mem_getUser_def)
  with None show ?thesis
    by (simp add: mem_createResetToken_def db_createResetToken_def mem_getUser_def)
next
  case (Some u)
  then have g: "db_getUser (mem_rows m) k = Some u"
    using sim_getUser [OF assms, of k] by (simp add: mem_getUser_def)
  let ?f = "\<lambda>u. u\<lparr> u_resetToken := Some (hex_encode rnd),
      u_resetTokenExpiry := Some (setHours tz now (getHours tz now + 1)) \<rparr>"
  from mem_wf_users [OF assms] have "keyed u_id (users m)" "distinct (map u_id (map_values (users m)))"
    by (simp_all add: table_wf_def)
  from map_set_update [OF this Some, of ?f]
  have "update_where (\<lambda>r. u_id r = k) ?f (db_users (mem_rows m)) =
      ([?f u], map_values (map_set (users m) k (?f u)))"
    by (simp add: mem_rows_def)
  then show ?thesis using Some g
    by (simp add: mem_createResetToken_def db_createResetToken_def mem_getUser_def Let_def mem_rows_def)
qed

lemma sim_createUser:
  assumes "mem_wf m" and "iu_email iu \<noteq> Some []"
  shows "apsnd mem_rows (mem_createUser now m iu) = db_createUser now (mem_rows m) iu"
proof -
  have "or_null (iu_email iu) = iu_email iu"
    using assms(2) by (cases "iu_email iu") auto
  then show ?thesis
    using mem_wf_users [OF assms(1)]
    by (simp add: mem_createUser_def db_createUser_def Let_def mem_rows_def map_set_insert [of u_id])
qed

lemma sim_createContact:
  assumes "mem_wf m"
  shows "apsnd mem_rows (mem_createContact now m ic) = db_createContact now (mem_rows m) ic"
  using mem_wf_contacts [OF assms]
  by (simp add: mem_createContact_def db_createContact_def Let_def mem_rows_def map_set_insert [of c_id])

lemma sim_createCampaign:
  assumes "mem_wf m"
  shows "apsnd mem_rows (mem_createCampaign now m ic) = db_createCampaign now (mem_rows m) ic"
  using mem_wf_campaigns [OF assms]
  by (simp add: mem_createCampaign_def db_createCampaign_def Let_def mem_rows_def map_set_insert [of cp_id])

lemma mem_rows_snd: "apsnd mem_rows r = d \<Longrightarrow> mem_rows (snd r) = snd d \<and> fst r = fst d"
  by (cases r) auto

lemma mem_rows_snd_Some:
  "map_prod Some mem_rows r = d \<Longrightarrow> mem_rows (snd r) = snd d \<and> Some (fst r) = fst d"
  by (cases r) auto

lemma mem_createUser_wf: "mem_wf m \<Longrightarrow> mem_wf (snd (mem_createUser now m iu))"
  by (simp add: mem_wf_def mem_createUser_def Let_def keyed_set mem_rows_def db_wf_def
      map_set_insert [of u_id] table_wf_insert)

lemma mem_createContact_wf:
  assumes "mem_wf m"
  shows "mem_wf (snd (mem_createContact now m ic))"
proof -
  have "db_wf (mem_rows (snd (mem_createContact now m ic)))"
    using mem_rows_snd [OF sim_createContact [OF assms]] db_createContact_wf [OF mem_wf_db [OF assms]]
    by simp
  then show ?thesis
    using assms by (simp add: mem_wf_def mem_createContact_def Let_def keyed_set)
qed

lemma mem_createCampaign_wf:
  assumes "mem_wf m"
  shows "mem_wf (snd (mem_createCampaign now m ic))"
proof -
  have "db_wf (mem_rows (snd (mem_createCampaign now m ic)))"
    using mem_rows_snd [OF sim_createCampaign [OF assms]] db_createCampaign_wf [OF mem_wf_db [OF assms]]
    by simp
  then show ?thesis
    using assms by (simp add: mem_wf_def mem_createCampaign_def Let_def keyed_set)
qed

lemma mem_updatePassword_wf:
  assumes "mem_wf m"
  shows "mem_wf (snd (mem_updatePassword m k pw))"
proof -
  have "db_wf (mem_rows (snd (mem_updatePassword m k pw)))"
    using mem_rows_snd [OF sim_updatePassword [OF assms]] db_updatePassword_wf [OF mem_wf_db [OF assms]]
    by simp
  moreover have "map_get (users m) k = Some u \<Longrightarrow> u_id u = k" for u
    using keyed_present [of u_id "users m" k u] assms by (simp add: mem_wf_def)
  ultimately show ?thesis
    using assms by (auto simp: mem_wf_def mem_updatePassword_def mem_getUser_def Let_def keyed_set
        split: option.splits)
qed

lemma sim_createOrUpdateAnalytics:
  assumes "mem_wf m"
  shows "map_prod Some mem_rows (mem_createOrUpdateAnalytics now m ia) =
         db_createOrUpdateAnalytics now (mem_rows m) ia"
proof (cases "analytics_of (ia_campaignId ia) (map_values (analyticsData m))")
  case Nil
  then have f: "find (\<lambda>a. an_campaignId a = ia_campaignId ia) (map_values (analyticsData m)) = None"
    by (simp add: find_first_row analytics_of_def)
  from Nil have "analytics_of (ia_campaignId ia) (db_analytics (mem_rows m)) = []"
    by (simp add: mem_rows_def)
  from db_upsert_insert [OF this] f mem_wf_analytics [OF assms]
  show ?thesis
    by (simp add: mem_createOrUpdateAnalytics_def Let_def mem_rows_def new_analytics_def
        map_set_insert [of an_id])
next
  case (Cons e rest)
  then have f: "find (\<lambda>a. an_campaignId a = ia_campaignId ia) (map_values (analyticsData m)) = Some e"
    by (simp add: find_first_row analytics_of_def)
  from Cons have "e \<in> set (analytics_of (ia_campaignId ia) (map_values (analyticsData m)))" by simp
  then have e: "e \<in> set (map_values (analyticsData m))" by (simp add: analytics_of_def)
  from mem_wf_analytics [OF assms]
  have k: "keyed an_id (analyticsData m)" and d: "distinct (map an_id (map_values (analyticsData m)))"
    by (simp_all add: table_wf_def)
  have p: "an_id e \<in> fst ` set (analyticsData m)"
  proof -
    have "an_id e \<in> set (map an_id (map_values (analyticsData m)))" using e by simp
    then show ?thesis using keyed_keys [OF k] by (simp add: map_values_def)
  qed
  have v: "map_values (map_set (analyticsData m) (an_id e) (merge_analytics now ia e)) =
      map (\<lambda>r. if an_id r = an_id e then merge_analytics now ia e else r) (map_values (analyticsData m))"
    using k keyed_distinct [OF k d] _ p by (rule map_set_present) (simp add: merge_analytics_def)
  from Cons have c: "analytics_of (ia_campaignId ia) (db_analytics (mem_rows m)) = e # rest"
    by (simp add: mem_rows_def)
  have d': "distinct (map an_id (db_analytics (mem_rows m)))"
    using d by (simp add: mem_rows_def)
  have "mem_createOrUpdateAnalytics now m ia =
      (merge_analytics now ia e, m\<lparr> analyticsData := map_set (analyticsData m) (an_id e) (merge_analytics now ia e) \<rparr>)"
    using f by (simp add: mem_createOrUpdateAnalytics_def Let_def merge_analytics_def)
  then show ?thesis
    using db_upsert_update [OF d' c, of now] v by (simp add: mem_rows_def)
qed

lemma mem_createOrUpdateAnalytics_keyed:
  assumes "mem_wf m"
  shows "keyed an_id (analyticsData (snd (mem_createOrUpdateAnalytics now m ia)))"
    and "users (snd (mem_createOrUpdateAnalytics now m ia)) = users m"
    and "contacts (snd (mem_createOrUpdateAnalytics now m ia)) = contacts m"
    and "campaigns (snd (mem_createOrUpdateAnalytics now m ia)) = campaigns m"
  using assms
  by (auto simp: mem_createOrUpdateAnalytics_def Let_def mem_wf_def keyed_set split: option.splits)

lemma mem_createOrUpdateAnalytics_wf:
  assumes "mem_wf m"
  shows "mem_wf (snd (mem_createOrUpdateAnalytics now m ia))"
proof -
  have "mem_rows (snd (mem_createOrUpdateAnalytics now m ia)) =
      snd (db_createOrUpdateAnalytics now (mem_rows m) ia)"
    using mem_rows_snd_Some [OF sim_createOrUpdateAnalytics [OF assms, of now ia]] by simp
  then have "db_wf (mem_rows (snd (mem_createOrUpdateAnalytics now m ia)))"
    using db_createOrUpdateAnalytics_wf [OF mem_wf_db [OF assms]] by simp
  then show ?thesis
    using assms mem_createOrUpdateAnalytics_keyed [OF assms, of now ia]
    by (simp add: mem_wf_def)
qed

lemma sim_importLoop:
  "mem_wf m \<Longrightarrow>
   apsnd mem_rows (mem_importLoop clock dd cs imp dup m) =
   db_importLoop clock dd cs imp dup (mem_rows m)"
proof (induction cs arbitrary: imp dup m)
  case Nil
  then show ?case by simp
next
  case (Cons c cs)
  have 1: "mem_rows (snd (mem_createContact (clock imp) m c)) =
      snd (db_createContact (clock imp) (mem_rows m) c)"
    using mem_rows_snd [OF sim_createContact [OF Cons.prems]] by simp
  have 2: "mem_wf (snd (mem_createContact (clock imp) m c))"
    using Cons.prems by (rule mem_createContact_wf)
  show ?case
    using Cons.IH [OF Cons.prems] Cons.IH [OF 2] 1
    by (cases dd) (simp_all add: sim_getContactByMobile split: option.splits)
qed

lemma sim_importContacts:
  "mem_wf m \<Longrightarrow>
   apsnd mem_rows (mem_importContacts clock m cs dd) =
   db_importContacts clock (mem_rows m) cs dd"
  by (simp add: mem_importContacts_def db_importContacts_def sim_importLoop)

lemma mem_importLoop_wf:
  "mem_wf m \<Longrightarrow> mem_wf (snd (mem_importLoop clock dd cs imp dup m))"
  by (induction cs arbitrary: imp dup m) (auto simp: mem_createContact_wf split: option.splits)

lemma mem_importContacts_wf:
  "mem_wf m \<Longrightarrow> mem_wf (snd (mem_importContacts clock m cs dd))"
  by (simp add: mem_importContacts_def mem_importLoop_wf)

lemma mem_createResetToken_wf:
  assumes "mem_wf m" and "mem_createResetToken tz rnd now m k = Inr (t, m')"
  shows "mem_wf m'"
proof -
  have "db_createResetToken tz rnd now (mem_rows m) k = Inr (t, mem_rows m')"
    using sim_createResetToken [OF assms(1), of tz rnd now k] assms(2) by simp
  then have "db_wf (mem_rows m')"
    using db_createResetToken_wf [OF mem_wf_db [OF assms(1)]] by blast
  moreover have "map_get (users m) k = Some u \<Longrightarrow> u_id u = k" for u
    using keyed_present [of u_id "users m" k u] assms(1) by (simp add: mem_wf_def)
  ultimately show ?thesis
    using assms
    by (auto simp: mem_wf_def mem_createResetToken_def mem_getUser_def Let_def keyed_set
        split: option.splits)
qed

lemma mem_launch_step_wf:
  assumes "mem_wf m" and "map_get (campaigns m) k = Some c"
  shows "mem_wf (m\<lparr> campaigns := map_set (campaigns m) k (c\<lparr> cp_status := ''active'' \<rparr>) \<rparr>)"
    and "mem_rows (m\<lparr> campaigns := map_set (campaigns m) k (c\<lparr> cp_status := ''active'' \<rparr>) \<rparr>) =
         (mem_rows m)\<lparr> db_campaigns := snd (update_where (\<lambda>c. cp_id c = k)
            (\<lambda>c. c\<lparr> cp_status := ''active'' \<rparr>) (db_campaigns (mem_rows m))) \<rparr>"
    and "fst (update_where (\<lambda>c. cp_id c = k)
            (\<lambda>c. c\<lparr> cp_status := ''active'' \<rparr>) (db_campaigns (mem_rows m))) = [c\<lparr> cp_status := ''active'' \<rparr>]"
proof -
  let ?f = "\<lambda>c. c\<lparr> cp_status := ''active'' \<rparr>"
  from mem_wf_campaigns [OF assms(1)]
  have k: "keyed cp_id (campaigns m)" and d: "distinct (map cp_id (map_values (campaigns m)))"
    and t: "table_wf cp_id (map_values (campaigns m)) (campaignCurrentId m)"
    by (simp_all add: table_wf_def)
  have u: "update_where (\<lambda>r. cp_id r = k) ?f (map_values (campaigns m)) =
      ([?f c], map_values (map_set (campaigns m) k (?f c)))"
    using map_set_update [OF k d assms(2), of ?f] by simp
  show 2: "mem_rows (m\<lparr> campaigns := map_set (campaigns m) k (?f c) \<rparr>) =
         (mem_rows m)\<lparr> db_campaigns := snd (update_where (\<lambda>c. cp_id c = k) ?f
            (db_campaigns (mem_rows m))) \<rparr>"
    using u by (simp add: mem_rows_def)
  show "fst (update_where (\<lambda>c. cp_id c = k) ?f (db_campaigns (mem_rows m))) = [?f c]"
    using u by (simp add: mem_rows_def)
  have "cp_id c = k" using keyed_present [OF k assms(2)] by simp
  then have "keyed cp_id (map_set (campaigns m) k (?f c))"
    using k by (intro keyed_set) simp_all
  moreover have "table_wf cp_id (map (\<lambda>r. if cp_id r = k then ?f r else r) (map_values (campaigns m)))
      (campaignCurrentId m)"
    using t by (intro table_wf_update) simp_all
  then have "db_wf (mem_rows (m\<lparr> campaigns := map_set (campaigns m) k (?f c) \<rparr>))"
    using assms(1) unfolding 2 by (simp add: mem_wf_def db_wf_def update_where_def mem_rows_def)
  ultimately show "mem_wf (m\<lparr> campaigns := map_set (campaigns m) k (?f c) \<rparr>)"
    using assms(1) by (simp add: mem_wf_def)
qed

lemma sim_launchCampaign:
  assumes "mem_wf m"
  shows "apsnd mem_rows (mem_launchCampaign now m k) = db_launchCampaign now (mem_rows m) k"
proof (cases "map_get (campaigns m) k")
  case None
  from map_get_none_update [OF _ None, of cp_id] mem_wf_campaigns [OF assms]
  show ?thesis using None
    by (simp add: mem_launchCampaign_def db_launchCampaign_def mem_rows_def)
next
  case (Some c)
  let ?m1 = "m\<lparr> campaigns := map_set (campaigns m) k (c\<lparr> cp_status := ''active'' \<rparr>) \<rparr>"
  let ?ia = "\<lparr> ia_accountId = cp_accountId c, ia_campaignId = k,
                   ia_sent = Some 0, ia_delivered = Some 0, ia_read = Some 0,
                   ia_optout = Some 0, ia_hold = Some 0, ia_failed = Some 0 \<rparr>"
  note st = mem_launch_step_wf [OF assms Some]
  have "mem_rows (snd (mem_createOrUpdateAnalytics now ?m1 ?ia)) =
      snd (db_createOrUpdateAnalytics now (mem_rows ?m1) ?ia)"
    using mem_rows_snd_Some [OF sim_createOrUpdateAnalytics [OF st(1), of now ?ia]] by simp
  then show ?thesis
    using Some st(3) unfolding st(2)
    by (cases "update_where (\<lambda>c. cp_id c = k) (\<lambda>c. c\<lparr> cp_status := ''active'' \<rparr>) (db_campaigns (mem_rows m))")
       (simp add: mem_launchCampaign_def db_launchCampaign_def Let_def)
qed

lemma mem_launchCampaign_wf:
  assumes "mem_wf m"
  shows "mem_wf (snd (mem_launchCampaign now m k))"
proof (cases "map_get (campaigns m) k")
  case None
  with assms show ?thesis by (simp add: mem_launchCampaign_def)
next
  case (Some c)
  from mem_createOrUpdateAnalytics_wf [OF mem_launch_step_wf(1) [OF assms Some]] Some
  show ?thesis by (simp add: mem_launchCampaign_def Let_def)
qed

subsection \<open>Launching a campaign\<close>

lemma db_launch_exists:
  assumes "db_getCampaignById s ident = Some c"
  shows "fst (db_launchCampaign now s ident)"
    and "db_getCampaignById (snd (db_launchCampaign now s ident)) ident =
         Some (c\<lparr> cp_status := ''active'' \<rparr>)"
proof -
  let ?p = "\<lambda>c. cp_id c = ident" and ?f = "\<lambda>c. c\<lparr> cp_status := ''active'' \<rparr>"
  from assms obtain rest where f: "filter ?p (db_campaigns s) = c # rest"
    by (cases "filter ?p (db_campaigns s)") (auto simp: db_getCampaignById_def select_where_def)
  then show "fst (db_launchCampaign now s ident)"
    by (simp add: db_launchCampaign_def update_where_def)
  have "db_campaigns (snd (db_launchCampaign now s ident)) =
      map (\<lambda>r. if ?p r then ?f r else r) (db_campaigns s)"
    using f by (simp add: db_launchCampaign_def update_where_def db_createOrUpdateAnalytics_campaigns)
  then show "db_getCampaignById (snd (db_launchCampaign now s ident)) ident =
      Some (c\<lparr> cp_status := ''active'' \<rparr>)"
    using f first_row_update [of ?p ?f "db_campaigns s"]
    by (simp add: db_getCampaignById_def select_where_def)
qed

lemma map_get_set: "map_get (map_set m k v) k' = (if k' = k then Some v else map_get m k')"
  by (simp add: map_get_def map_set_def update_conv')

lemma mem_launch_exists:
  assumes "mem_getCampaignById s ident = Some c"
  shows "fst (mem_launchCampaign now s ident)"
    and "mem_getCampaignById (snd (mem_launchCampaign now s ident)) ident =
         Some (c\<lparr> cp_status := ''active'' \<rparr>)"
  using assms
  by (simp_all add: mem_launchCampaign_def mem_getCampaignById_def Let_def
      mem_createOrUpdateAnalytics_def map_get_set split: option.splits)

lemma db_launch_missing:
  assumes "db_getCampaignById s ident = None"
  shows "db_launchCampaign now s ident = (False, s)"
proof -
  have "\<forall>r\<in>set (db_campaigns s). \<not> cp_id r = ident"
    using assms unfolding db_getCampaignById_def by (rule select_none)
  then show ?thesis
    by (simp add: db_launchCampaign_def update_where_none)
qed

lemma mem_launch_missing:
  "mem_getCampaignById s ident = None \<Longrightarrow> mem_launchCampaign now s ident = (False, s)"
  by (simp add: mem_launchCampaign_def mem_getCampaignById_def)

lemma db_updatePassword_missing:
  assumes "db_getUser s userId = None"
  shows "db_updatePassword s userId pw = (False, s)"
proof -
  have "\<forall>r\<in>set (db_users s). \<not> u_id r = userId"
    using assms unfolding db_getUser_def by (rule select_none)
  then show ?thesis
    by (simp add: db_updatePassword_def update_where_none)
qed

lemma mem_updatePassword_missing:
  "mem_getUser s userId = None \<Longrightarrow> mem_updatePassword s userId pw = (False, s)"
  by (simp add: mem_updatePassword_def)

text \<open>
  C7: whatever record \<open>createCampaign\<close> is given, the campaign it returns and stores has
  status \<open>draft\<close>, the status of the input playing no part; a contact label that is
  absent or the empty string is stored as absent.  Both backends.
\<close>

theorem createCampaign_forces_draft:
  "cp_status (fst (db_createCampaign now s ic)) = ''draft'' \<and>
   db_campaigns (snd (db_createCampaign now s ic)) =
     db_campaigns s @ [fst (db_createCampaign now s ic)] \<and>
   cp_status (fst (mem_createCampaign now m ic)) = ''draft'' \<and>
   mem_getCampaignById (snd (mem_createCampaign now m ic))
     (cp_id (fst (mem_createCampaign now m ic))) = Some (fst (mem_createCampaign now m ic)) \<and>
   (icp_contactLabel ic = None \<or> icp_contactLabel ic = Some [] \<longrightarrow>
      cp_contactLabel (fst (db_createCampaign now s ic)) = None \<and>
      cp_contactLabel (fst (mem_createCampaign now m ic)) = None)"
  by (auto simp: db_createCampaign_def mem_createCampaign_def mem_getCampaignById_def Let_def
      map_get_set)

theorem createCampaign_forces_draft_witness:
  "icp_status campaign_input = Some ''active'' \<and>
   icp_contactLabel campaign_input = Some [] \<and>
   cp_status (fst (db_createCampaign 7 db_empty campaign_input)) = ''draft'' \<and>
   cp_contactLabel (fst (db_createCampaign 7 db_empty campaign_input)) = None \<and>
   cp_status (fst (mem_createCampaign 7 mem_empty campaign_input)) = ''draft'' \<and>
   cp_contactLabel (fst (mem_createCampaign 7 mem_empty campaign_input)) = None"
  using createCampaign_forces_draft [of 7 db_empty campaign_input mem_empty]
  by (simp add: campaign_input_def)

text \<open>
  C10: \<open>launchCampaign\<close> never looks at the status the campaign has.  For a stored
  campaign, whatever its status, the call returns true and the campaign is afterwards the
  same record with status \<open>active\<close>.  Both backends.
\<close>

theorem launchCampaign_ignores_status:
  "(db_getCampaignById s ident = Some c \<longrightarrow>
      fst (db_launchCampaign now s ident) \<and>
      db_getCampaignById (snd (db_launchCampaign now s ident)) ident =
        Some (c\<lparr> cp_status := ''active'' \<rparr>)) \<and>
   (mem_getCampaignById m ident = Some c' \<longrightarrow>
      fst (mem_launchCampaign now m ident) \<and>
      mem_getCampaignById (snd (mem_launchCampaign now m ident)) ident =
        Some (c'\<lparr> cp_status := ''active'' \<rparr>))"
  using db_launch_exists [of s ident c now] mem_launch_exists [of m ident c' now] by blast

theorem launchCampaign_ignores_status_witness:
  "cp_status paused_campaign = ''paused'' \<and>
   db_getCampaignById db_paused 1 = Some paused_campaign \<and>
   fst (db_launchCampaign 9 db_paused 1) \<and>
   db_getCampaignById (snd (db_launchCampaign 9 db_paused 1)) 1 =
     Some (paused_campaign\<lparr> cp_status := ''active'' \<rparr>) \<and>
   mem_getCampaignById mem_paused 1 = Some paused_campaign \<and>
   fst (mem_launchCampaign 9 mem_paused 1) \<and>
   mem_getCampaignById (snd (mem_launchCampaign 9 mem_paused 1)) 1 =
     Some (paused_campaign\<lparr> cp_status := ''active'' \<rparr>)"
proof -
  have 1: "db_getCampaignById db_paused 1 = Some paused_campaign"
    by (simp add: db_getCampaignById_def db_paused_def db_empty_def select_where_def
        paused_campaign_def)
  have 2: "mem_getCampaignById mem_paused 1 = Some paused_campaign"
    by (simp add: mem_getCampaignById_def mem_paused_def mem_empty_def map_get_def)
  have 3: "cp_status paused_campaign = ''paused''"
    by (simp add: paused_campaign_def)
  show ?thesis
    using launchCampaign_ignores_status [of db_paused 1 paused_campaign 9 mem_paused paused_campaign]
      1 2 3 by simp
qed

text \<open>
  C8: an id that resolves to nothing is signalled in two ways.  \<open>createResetToken\<close>
  throws the error \<open>User not found\<close>; \<open>updatePassword\<close> and \<open>launchCampaign\<close> return
  false and leave the store as it was.  Both backends.
\<close>

theorem failure_signalling:
  "(db_getUser s userId = None \<longrightarrow>
      db_createResetToken tz rnd now s userId = Inl (Error ''User not found'') \<and>
      db_updatePassword s userId pw = (False, s)) \<and>
   (db_getCampaignById s ident = None \<longrightarrow> db_launchCampaign now s ident = (False, s)) \<and>
   (mem_getUser m userId = None \<longrightarrow>
      mem_createResetToken tz rnd now m userId = Inl (Error ''User not found'') \<and>
      mem_updatePassword m userId pw = (False, m)) \<and>
   (mem_getCampaignById m ident = None \<longrightarrow> mem_launchCampaign now m ident = (False, m))"
  using db_updatePassword_missing [of s userId pw] db_launch_missing [of s ident now]
    mem_updatePassword_missing [of m userId pw] mem_launch_missing [of m ident now]
  by (simp add: db_createResetToken_def mem_createResetToken_def)

theorem failure_signalling_witness:
  "db_getUser db_reset 2 = None \<and> db_getCampaignById db_reset 5 = None \<and>
   mem_getUser mem_reset 2 = None \<and> mem_getCampaignById mem_reset 5 = None \<and>
   db_createResetToken (fixed_zone 0) [171, 18] 50 db_reset 2 = Inl (Error ''User not found'') \<and>
   db_updatePassword db_reset 2 ''new'' = (False, db_reset) \<and>
   db_launchCampaign 50 db_reset 5 = (False, db_reset) \<and>
   mem_createResetToken (fixed_zone 0) [171, 18] 50 mem_reset 2 = Inl (Error ''User not found'') \<and>
   mem_updatePassword mem_reset 2 ''new'' = (False, mem_reset) \<and>
   mem_launchCampaign 50 mem_reset 5 = (False, mem_reset)"
proof -
  have 1: "db_getUser db_reset 2 = None" "db_getCampaignById db_reset 5 = None"
    by (simp_all add: db_getUser_def db_getCampaignById_def db_reset_def db_empty_def
        select_where_def reset_user_def)
  have 2: "mem_getUser mem_reset 2 = None" "mem_getCampaignById mem_reset 5 = None"
    by (simp_all add: mem_getUser_def mem_getCampaignById_def mem_reset_def mem_empty_def
        map_get_def)
  show ?thesis
    using failure_signalling [of db_reset 2 "fixed_zone 0" "[171, 18]" 50 "''new''" 5 mem_reset] 1 2
    by simp
qed

subsection \<open>Updating a password\<close>

lemma db_updatePassword_users:
  "db_users (snd (db_updatePassword s userId pw)) =
   map (\<lambda>r. if u_id r = userId
              then r\<lparr> u_password := pw, u_resetToken := None, u_resetTokenExpiry := None \<rparr>
              else r) (db_users s)"
  by (simp add: db_updatePassword_def update_where_def)

lemma db_updatePassword_found:
  assumes "db_getUser s userId = Some u"
  shows "fst (db_updatePassword s userId pw)"
    and "db_getUser (snd (db_updatePassword s userId pw)) userId =
         Some (u\<lparr> u_password := pw, u_resetToken := None, u_resetTokenExpiry := None \<rparr>)"
proof -
  let ?p = "\<lambda>r. u_id r = userId"
  let ?f = "\<lambda>r. r\<lparr> u_password := pw, u_resetToken := None, u_resetTokenExpiry := None \<rparr>"
  from assms obtain rest where f: "filter ?p (db_users s) = u # rest"
    by (cases "filter ?p (db_users s)") (auto simp: db_getUser_def select_where_def)
  then show "fst (db_updatePassword s userId pw)"
    by (simp add: db_updatePassword_def update_where_def)
  show "db_getUser (snd (db_updatePassword s userId pw)) userId = Some (?f u)"
    using f first_row_update [of ?p ?f "db_users s"]
    by (simp add: db_getUser_def select_where_def db_updatePassword_users)
qed

lemma db_tokens_after_update:
  "select_where (\<lambda>u. u_resetToken u = Some token)
     (db_users (snd (db_updatePassword s userId pw))) =
   filter (\<lambda>u. u_resetToken u = Some token \<and> u_id u \<noteq> userId) (db_users s)"
  unfolding db_updatePassword_users select_where_def
  by (rule filter_updated) simp

lemma db_verify_after_update:
  assumes "db_verifyResetToken now (snd (db_updatePassword s userId pw)) token = Some v"
  shows "u_id v \<noteq> userId \<and> v \<in> set (db_users s) \<and> u_resetToken v = Some token"
proof -
  let ?l = "filter (\<lambda>u. u_resetToken u = Some token \<and> u_id u \<noteq> userId) (db_users s)"
  from assms obtain rest where "?l = v # rest"
    unfolding db_verifyResetToken_def db_tokens_after_update
    by (cases ?l) (auto split: option.splits if_splits)
  then have "v \<in> set ?l" by simp
  then show ?thesis by simp
qed

lemma db_verify_after_update_none:
  assumes "\<forall>r\<in>set (db_users s). u_resetToken r = Some token \<longrightarrow> u_id r = userId"
  shows "db_verifyResetToken now (snd (db_updatePassword s userId pw)) token = None"
proof -
  have "filter (\<lambda>u. u_resetToken u = Some token \<and> u_id u \<noteq> userId) (db_users s) = []"
    using assms by (auto simp: filter_empty_conv)
  then show ?thesis
    unfolding db_verifyResetToken_def db_tokens_after_update by simp
qed

lemma mem_updatePassword_rows:
  "mem_wf m \<Longrightarrow>
   mem_rows (snd (mem_updatePassword m userId pw)) = snd (db_updatePassword (mem_rows m) userId pw) \<and>
   fst (mem_updatePassword m userId pw) = fst (db_updatePassword (mem_rows m) userId pw)"
  using mem_rows_snd [OF sim_updatePassword] by simp

text \<open>
  C6: for a stored user, \<open>updatePassword\<close> returns true and writes the new password and
  an absent reset token and expiry in one update.  Afterwards no token resolves to that
  user, and a token that no other stored user holds, as the one that verified for this
  user before the call, does not verify at all.  For an unknown id the call returns false
  and the store is unchanged.  Both backends, \<open>MemStorage\<close> on a well-formed store.
\<close>

theorem updatePassword_clears_reset_token:
  "(db_getUser s userId = Some u \<longrightarrow>
      fst (db_updatePassword s userId pw) \<and>
      db_getUser (snd (db_updatePassword s userId pw)) userId =
        Some (u\<lparr> u_password := pw, u_resetToken := None, u_resetTokenExpiry := None \<rparr>) \<and>
      (\<forall>v. db_verifyResetToken now (snd (db_updatePassword s userId pw)) token = Some v \<longrightarrow>
           u_id v \<noteq> userId) \<and>
      ((\<forall>r\<in>set (db_users s). u_resetToken r = Some token \<longrightarrow> u_id r = userId) \<longrightarrow>
         db_verifyResetToken now (snd (db_updatePassword s userId pw)) token = None)) \<and>
   (db_getUser s userId = None \<longrightarrow> db_updatePassword s userId pw = (False, s)) \<and>
   (mem_wf m \<and> mem_getUser m userId = Some u' \<longrightarrow>
      fst (mem_updatePassword m userId pw) \<and>
      mem_getUser (snd (mem_updatePassword m userId pw)) userId =
        Some (u'\<lparr> u_password := pw, u_resetToken := None, u_resetTokenExpiry := None \<rparr>) \<and>
      (\<forall>v. mem_verifyResetToken now (snd (mem_updatePassword m userId pw)) token = Some v \<longrightarrow>
           u_id v \<noteq> userId) \<and>
      ((\<forall>r\<in>set (map_values (users m)). u_resetToken r = Some token \<longrightarrow> u_id r = userId) \<longrightarrow>
         mem_verifyResetToken now (snd (mem_updatePassword m userId pw)) token = None)) \<and>
   (mem_getUser m userId = None \<longrightarrow> mem_updatePassword m userId pw = (False, m))"
proof (intro conjI impI)
  assume "db_getUser s userId = Some u"
  then show "fst (db_updatePassword s userId pw)"
    and "db_getUser (snd (db_updatePassword s userId pw)) userId =
        Some (u\<lparr> u_password := pw, u_resetToken := None, u_resetTokenExpiry := None \<rparr>)"
    by (rule db_updatePassword_found)+
next
  show "\<forall>v. db_verifyResetToken now (snd (db_updatePassword s userId pw)) token = Some v \<longrightarrow>
           u_id v \<noteq> userId"
    using db_verify_after_update by blast
next
  assume "\<forall>r\<in>set (db_users s). u_resetToken r = Some token \<longrightarrow> u_id r = userId"
  then show "db_verifyResetToken now (snd (db_updatePassword s userId pw)) token = None"
    by (rule db_verify_after_update_none)
next
  assume "db_getUser s userId = None"
  then show "db_updatePassword s userId pw = (False, s)"
    by (rule db_updatePassword_missing)
next
  assume a: "mem_wf m \<and> mem_getUser m userId = Some u'"
  then have g: "db_getUser (mem_rows m) userId = Some u'"
    using sim_getUser [of m userId] by simp
  note r = mem_updatePassword_rows [of m userId pw]
  have wf': "mem_wf (snd (mem_updatePassword m userId pw))"
    using a by (simp add: mem_updatePassword_wf)
  show "fst (mem_updatePassword m userId pw)"
    using a r db_updatePassword_found(1) [OF g] by simp
  show "mem_getUser (snd (mem_updatePassword m userId pw)) userId =
        Some (u'\<lparr> u_password := pw, u_resetToken := None, u_resetTokenExpiry := None \<rparr>)"
    using a r db_updatePassword_found(2) [OF g, of pw] sim_getUser [OF wf', of userId] by simp
  show "\<forall>v. mem_verifyResetToken now (snd (mem_updatePassword m userId pw)) token = Some v \<longrightarrow>
           u_id v \<noteq> userId"
    using a r db_verify_after_update [of now "mem_rows m" userId pw token]
    by (simp add: sim_verifyResetToken)
  assume "\<forall>r\<in>set (map_values (users m)). u_resetToken r = Some token \<longrightarrow> u_id r = userId"
  then have "\<forall>r\<in>set (db_users (mem_rows m)). u_resetToken r = Some token \<longrightarrow> u_id r = userId"
    by (simp add: mem_rows_def)
  then show "mem_verifyResetToken now (snd (mem_updatePassword m userId pw)) token = None"
    using a r db_verify_after_update_none [of "mem_rows m" token userId now pw]
    by (simp add: sim_verifyResetToken)
next
  assume "mem_getUser m userId = None"
  then show "mem_updatePassword m userId pw = (False, m)"
    by (rule mem_updatePassword_missing)
qed

lemma db_reset_facts:
  "db_getUser db_reset 1 = Some reset_user"
  "db_verifyResetToken 50 db_reset ''ab12'' = Some reset_user"
  "\<forall>r\<in>set (db_users db_reset). u_resetToken r = Some ''ab12'' \<longrightarrow> u_id r = 1"
  by (simp_all add: db_getUser_def db_verifyResetToken_def db_reset_def db_empty_def
      select_where_def reset_user_def)

lemma mem_reset_facts:
  "mem_wf mem_reset"
  "mem_getUser mem_reset 1 = Some reset_user"
  "mem_verifyResetToken 50 mem_reset ''ab12'' = Some reset_user"
  "\<forall>r\<in>set (map_values (users mem_reset)). u_resetToken r = Some ''ab12'' \<longrightarrow> u_id r = 1"
  by (simp_all add: mem_getUser_def mem_verifyResetToken_def mem_reset_def mem_empty_def
      map_get_def map_values_def reset_user_def mem_wf_def keyed_def mem_rows_def db_wf_def
      table_wf_def)

theorem updatePassword_clears_reset_token_witness:
  "db_getUser db_reset 1 = Some reset_user \<and>
   db_verifyResetToken 50 db_reset ''ab12'' = Some reset_user \<and>
   fst (db_updatePassword db_reset 1 ''new'') \<and>
   db_getUser (snd (db_updatePassword db_reset 1 ''new'')) 1 =
     Some (reset_user\<lparr> u_password := ''new'', u_resetToken := None,
                        u_resetTokenExpiry := None \<rparr>) \<and>
   db_verifyResetToken 50 (snd (db_updatePassword db_reset 1 ''new'')) ''ab12'' = None \<and>
   mem_wf mem_reset \<and> mem_getUser mem_reset 1 = Some reset_user \<and>
   mem_verifyResetToken 50 mem_reset ''ab12'' = Some reset_user \<and>
   fst (mem_updatePassword mem_reset 1 ''new'') \<and>
   mem_getUser (snd (mem_updatePassword mem_reset 1 ''new'')) 1 =
     Some (reset_user\<lparr> u_password := ''new'', u_resetToken := None,
                        u_resetTokenExpiry := None \<rparr>) \<and>
   mem_verifyResetToken 50 (snd (mem_updatePassword mem_reset 1 ''new'')) ''ab12'' = None"
  using updatePassword_clears_reset_token
    [of db_reset 1 reset_user "''new''" 50 "''ab12''" mem_reset reset_user]
    db_reset_facts mem_reset_facts
  by simp

subsection \<open>The analytics row of a campaign\<close>

lemma kept_or_set_nullish: "kept_or_set x old (nullish x old)"
  by (cases x) (simp_all add: kept_or_set_def)

lemma kept_or_set_or_zero: "kept_or_set x 0 (or_zero x)"
  by (cases x) (simp_all add: kept_or_set_def)

lemma merge_counters: "counters_merged ia e (merge_analytics now ia e)"
  by (simp add: counters_merged_def merge_analytics_def kept_or_set_nullish)

lemma new_counters: "counters_defaulted ia (new_analytics now ia k)"
  by (simp add: counters_defaulted_def new_analytics_def kept_or_set_or_zero)

lemma db_upsert_new_row:
  assumes "analytics_of (ia_campaignId ia) (db_analytics s) = []"
  shows "fst (db_createOrUpdateAnalytics now s ia) = Some (new_analytics now ia (db_analytics_seq s))"
    and "analytics_of (ia_campaignId ia) (db_analytics (snd (db_createOrUpdateAnalytics now s ia))) =
         [new_analytics now ia (db_analytics_seq s)]"
    and "length (db_analytics (snd (db_createOrUpdateAnalytics now s ia))) =
         length (db_analytics s) + 1"
  using assms
  by (simp_all add: db_upsert_insert [OF assms]) (simp_all add: analytics_of_def new_analytics_def)

lemma db_upsert_old_row:
  assumes wf: "db_wf s" and e: "analytics_of (ia_campaignId ia) (db_analytics s) = [e]"
  shows "fst (db_createOrUpdateAnalytics now s ia) = Some (merge_analytics now ia e)"
    and "analytics_of (ia_campaignId ia) (db_analytics (snd (db_createOrUpdateAnalytics now s ia))) =
         [merge_analytics now ia e]"
    and "length (db_analytics (snd (db_createOrUpdateAnalytics now s ia))) =
         length (db_analytics s)"
proof -
  from wf have ids: "distinct (map an_id (db_analytics s))"
    and cs: "distinct (map an_campaignId (db_analytics s))"
    by (simp_all add: db_wf_def table_wf_def)
  from e have "e \<in> set (analytics_of (ia_campaignId ia) (db_analytics s))" by simp
  then have m: "e \<in> set (db_analytics s)" "an_campaignId e = ia_campaignId ia"
    by (simp_all add: analytics_of_def)
  note u = db_upsert_update [OF ids e, of now]
  show "fst (db_createOrUpdateAnalytics now s ia) = Some (merge_analytics now ia e)"
    by (simp add: u)
  show "analytics_of (ia_campaignId ia) (db_analytics (snd (db_createOrUpdateAnalytics now s ia))) =
         [merge_analytics now ia e]"
    using analytics_of_after_update [OF ids cs m, of "merge_analytics now ia e"]
    by (simp add: u merge_analytics_def)
  show "length (db_analytics (snd (db_createOrUpdateAnalytics now s ia))) = length (db_analytics s)"
    by (simp add: u)
qed

lemma db_one_row_at_most:
  assumes "db_wf s"
  shows "analytics_of k (db_analytics s) = [] \<or> (\<exists>e. analytics_of k (db_analytics s) = [e])"
  using filter_distinct_column [of an_campaignId "db_analytics s" k] assms
  by (auto simp: analytics_of_def db_wf_def)

lemma db_upsert_row:
  assumes wf: "db_wf s"
  shows "\<exists>r. fst (db_createOrUpdateAnalytics now s ia) = Some r \<and>
             analytics_of (ia_campaignId ia)
               (db_analytics (snd (db_createOrUpdateAnalytics now s ia))) = [r] \<and>
             (analytics_of (ia_campaignId ia) (db_analytics s) = [] \<longrightarrow> counters_defaulted ia r) \<and>
             (\<forall>e. analytics_of (ia_campaignId ia) (db_analytics s) = [e] \<longrightarrow> counters_merged ia e r)"
proof -
  from db_one_row_at_most [OF wf, of "ia_campaignId ia"]
  consider "analytics_of (ia_campaignId ia) (db_analytics s) = []"
    | e where "analytics_of (ia_campaignId ia) (db_analytics s) = [e]" by blast
  then show ?thesis
  proof cases
    case 1
    then show ?thesis
      using db_upsert_new_row [OF 1, of now] new_counters by simp
  next
    case 2
    then show ?thesis
      using db_upsert_old_row [OF wf 2, of now] merge_counters by simp
  qed
qed

lemma mem_upsert_rows:
  assumes "mem_wf m"
  shows "db_analytics (snd (db_createOrUpdateAnalytics now (mem_rows m) ia)) =
         map_values (analyticsData (snd (mem_createOrUpdateAnalytics now m ia)))"
    and "fst (db_createOrUpdateAnalytics now (mem_rows m) ia) =
         Some (fst (mem_createOrUpdateAnalytics now m ia))"
proof -
  note r = mem_rows_snd_Some [OF sim_createOrUpdateAnalytics [OF assms, of now ia]]
  have "db_analytics (mem_rows (snd (mem_createOrUpdateAnalytics now m ia))) =
      map_values (analyticsData (snd (mem_createOrUpdateAnalytics now m ia)))"
    by (simp add: mem_rows_def)
  then show "db_analytics (snd (db_createOrUpdateAnalytics now (mem_rows m) ia)) =
         map_values (analyticsData (snd (mem_createOrUpdateAnalytics now m ia)))"
    using r by simp
  show "fst (db_createOrUpdateAnalytics now (mem_rows m) ia) =
         Some (fst (mem_createOrUpdateAnalytics now m ia))"
    using r by simp
qed

lemma mem_upsert_row:
  assumes wf: "mem_wf m"
  shows "analytics_of (ia_campaignId ia)
           (map_values (analyticsData (snd (mem_createOrUpdateAnalytics now m ia)))) =
           [fst (mem_createOrUpdateAnalytics now m ia)] \<and>
         (analytics_of (ia_campaignId ia) (map_values (analyticsData m)) = [] \<longrightarrow>
            counters_defaulted ia (fst (mem_createOrUpdateAnalytics now m ia))) \<and>
         (\<forall>e. analytics_of (ia_campaignId ia) (map_values (analyticsData m)) = [e] \<longrightarrow>
            counters_merged ia e (fst (mem_createOrUpdateAnalytics now m ia)))"
proof -
  have a: "db_analytics (mem_rows m) = map_values (analyticsData m)"
    by (simp add: mem_rows_def)
  show ?thesis
    using db_upsert_row [OF mem_wf_db [OF wf], of now ia] mem_upsert_rows [OF wf, of now ia]
    unfolding a by auto
qed

lemma db_upsert_twice:
  assumes wf: "db_wf s"
  shows "\<exists>r. fst (db_createOrUpdateAnalytics now' (snd (db_createOrUpdateAnalytics now s
                 (sent_five a cid))) (delivered_three a' cid)) = Some r \<and>
             analytics_of cid (db_analytics (snd (db_createOrUpdateAnalytics now'
               (snd (db_createOrUpdateAnalytics now s (sent_five a cid)))
               (delivered_three a' cid)))) = [r] \<and>
             an_sent r = 5 \<and> an_delivered r = 3"
proof -
  let ?s1 = "snd (db_createOrUpdateAnalytics now s (sent_five a cid))"
  have c1: "ia_campaignId (sent_five a cid) = cid" "ia_sent (sent_five a cid) = Some 5"
    by (simp_all add: sent_five_def)
  have c2: "ia_campaignId (delivered_three a' cid) = cid"
    "ia_sent (delivered_three a' cid) = None" "ia_delivered (delivered_three a' cid) = Some 3"
    by (simp_all add: delivered_three_def)
  from db_upsert_row [OF wf, of now "sent_five a cid"] obtain r1
    where r1: "analytics_of cid (db_analytics ?s1) = [r1]"
      and d: "analytics_of cid (db_analytics s) = [] \<longrightarrow> counters_defaulted (sent_five a cid) r1"
      and m: "\<forall>e. analytics_of cid (db_analytics s) = [e] \<longrightarrow> counters_merged (sent_five a cid) e r1"
    unfolding c1 by blast
  have s5: "an_sent r1 = 5"
    using db_one_row_at_most [OF wf, of cid] d m c1
    by (auto simp: counters_defaulted_def counters_merged_def kept_or_set_def)
  have wf1: "db_wf ?s1" using wf by (rule db_createOrUpdateAnalytics_wf)
  have r1': "analytics_of (ia_campaignId (delivered_three a' cid)) (db_analytics ?s1) = [r1]"
    using r1 c2 by simp
  show ?thesis
    using db_upsert_old_row(1,2) [OF wf1 r1', of now'] s5 c2
    by (simp add: merge_analytics_def)
qed

lemma mem_upsert_twice:
  assumes wf: "mem_wf m"
  shows "analytics_of cid (map_values (analyticsData (snd (mem_createOrUpdateAnalytics now'
               (snd (mem_createOrUpdateAnalytics now m (sent_five a cid)))
               (delivered_three a' cid))))) =
           [fst (mem_createOrUpdateAnalytics now' (snd (mem_createOrUpdateAnalytics now m
                 (sent_five a cid))) (delivered_three a' cid))] \<and>
         an_sent (fst (mem_createOrUpdateAnalytics now' (snd (mem_createOrUpdateAnalytics now m
                 (sent_five a cid))) (delivered_three a' cid))) = 5 \<and>
         an_delivered (fst (mem_createOrUpdateAnalytics now' (snd (mem_createOrUpdateAnalytics now m
                 (sent_five a cid))) (delivered_three a' cid))) = 3"
proof -
  let ?m1 = "snd (mem_createOrUpdateAnalytics now m (sent_five a cid))"
  have wf1: "mem_wf ?m1" using wf by (rule mem_createOrUpdateAnalytics_wf)
  have 1: "mem_rows ?m1 = snd (db_createOrUpdateAnalytics now (mem_rows m) (sent_five a cid))"
    using mem_rows_snd_Some [OF sim_createOrUpdateAnalytics [OF wf, of now "sent_five a cid"]]
    by simp
  show ?thesis
    using db_upsert_twice [OF mem_wf_db [OF wf], of now' now a cid a']
      mem_upsert_rows [OF wf1, of now' "delivered_three a' cid"]
    unfolding 1 [symmetric] by auto
qed

text \<open>
  C4: on a well-formed store, \<open>createOrUpdateAnalytics\<close> with \<open>{sent: 5}\<close> and then
  with \<open>{delivered: 3}\<close> for one campaign leaves that campaign exactly one row, which has
  \<open>sent = 5\<close> and \<open>delivered = 3\<close>.  In general the call leaves the campaign exactly one
  row: where a row existed, every counter the input leaves out keeps its value and every
  counter it supplies is overwritten; where none existed, the counters left out are 0.
  Both backends.
\<close>

theorem createOrUpdateAnalytics_merges:
  "(db_wf s \<longrightarrow>
      (\<exists>r. fst (db_createOrUpdateAnalytics now' (snd (db_createOrUpdateAnalytics now s
                 (sent_five a cid))) (delivered_three a' cid)) = Some r \<and>
           analytics_of cid (db_analytics (snd (db_createOrUpdateAnalytics now'
             (snd (db_createOrUpdateAnalytics now s (sent_five a cid)))
             (delivered_three a' cid)))) = [r] \<and>
           an_sent r = 5 \<and> an_delivered r = 3) \<and>
      (\<exists>r. fst (db_createOrUpdateAnalytics now s ia) = Some r \<and>
           analytics_of (ia_campaignId ia)
             (db_analytics (snd (db_createOrUpdateAnalytics now s ia))) = [r] \<and>
           (analytics_of (ia_campaignId ia) (db_analytics s) = [] \<longrightarrow>
              counters_defaulted ia r) \<and>
           (\<forall>e. analytics_of (ia_campaignId ia) (db_analytics s) = [e] \<longrightarrow>
              counters_merged ia e r))) \<and>
   (mem_wf m \<longrightarrow>
      (analytics_of cid (map_values (analyticsData (snd (mem_createOrUpdateAnalytics now'
             (snd (mem_createOrUpdateAnalytics now m (sent_five a cid)))
             (delivered_three a' cid))))) =
         [fst (mem_createOrUpdateAnalytics now' (snd (mem_createOrUpdateAnalytics now m
               (sent_five a cid))) (delivered_three a' cid))] \<and>
       an_sent (fst (mem_createOrUpdateAnalytics now' (snd (mem_createOrUpdateAnalytics now m
               (sent_five a cid))) (delivered_three a' cid))) = 5 \<and>
       an_delivered (fst (mem_createOrUpdateAnalytics now' (snd (mem_createOrUpdateAnalytics now m
               (sent_five a cid))) (delivered_three a' cid))) = 3) \<and>
      (analytics_of (ia_campaignId ia)
           (map_values (analyticsData (snd (mem_createOrUpdateAnalytics now m ia)))) =
           [fst (mem_createOrUpdateAnalytics now m ia)] \<and>
       (analytics_of (ia_campaignId ia) (map_values (analyticsData m)) = [] \<longrightarrow>
          counters_defaulted ia (fst (mem_createOrUpdateAnalytics now m ia))) \<and>
       (\<forall>e. analytics_of (ia_campaignId ia) (map_values (analyticsData m)) = [e] \<longrightarrow>
          counters_merged ia e (fst (mem_createOrUpdateAnalytics now m ia)))))"
  using db_upsert_twice [of s now' now a cid a'] db_upsert_row [of s now ia]
    mem_upsert_twice [of m cid now' now a a'] mem_upsert_row [of m ia now]
  by blast

lemma db_counted_eval:
  "db_counted = \<lparr> db_users = [], db_contacts = [],
     db_campaigns = [\<lparr> cp_id = 1, cp_accountId = 1, cp_name = ''Spring sale'',
       cp_template = ''promo'', cp_contactLabel = None, cp_status = ''draft'',
       cp_scheduledFor = None, cp_createdAt = 7 \<rparr>],
     db_analytics = [\<lparr> an_id = 1, an_accountId = 1, an_campaignId = 1, an_sent = 5,
       an_delivered = 0, an_read = 0, an_optout = 0, an_hold = 0, an_failed = 0,
       an_updatedAt = 8 \<rparr>],
     db_users_seq = 1, db_contacts_seq = 1, db_campaigns_seq = 2, db_analytics_seq = 2 \<rparr>"
  by (simp add: db_counted_def db_createOrUpdateAnalytics_def db_createCampaign_def db_empty_def
      sent_five_def campaign_input_def select_where_def Let_def)

lemma mem_counted_eval:
  "mem_counted = \<lparr> users = [], contacts = [],
     campaigns = [(1, \<lparr> cp_id = 1, cp_accountId = 1, cp_name = ''Spring sale'',
       cp_template = ''promo'', cp_contactLabel = None, cp_status = ''draft'',
       cp_scheduledFor = None, cp_createdAt = 7 \<rparr>)],
     analyticsData = [(1, \<lparr> an_id = 1, an_accountId = 1, an_campaignId = 1, an_sent = 5,
       an_delivered = 0, an_read = 0, an_optout = 0, an_hold = 0, an_failed = 0,
       an_updatedAt = 8 \<rparr>)],
     userCurrentId = 1, contactCurrentId = 1, campaignCurrentId = 2, analyticsCurrentId = 2 \<rparr>"
  by (simp add: mem_counted_def mem_createOrUpdateAnalytics_def mem_createCampaign_def
      mem_empty_def sent_five_def campaign_input_def map_values_def map_set_def Let_def)

lemma db_counted_wf: "db_wf db_counted"
  unfolding db_counted_def
  by (intro db_createOrUpdateAnalytics_wf db_createCampaign_wf db_empty_wf)

lemma mem_counted_wf: "mem_wf mem_counted"
  unfolding mem_counted_def
  by (intro mem_createOrUpdateAnalytics_wf mem_createCampaign_wf mem_empty_wf)

theorem createOrUpdateAnalytics_merges_witness:
  "db_wf db_empty \<and> analytics_of 1 (db_analytics db_empty) = [] \<and>
   map an_sent (analytics_of 1 (db_analytics (snd (db_createOrUpdateAnalytics 9
     (snd (db_createOrUpdateAnalytics 8 db_empty (sent_five 1 1))) (delivered_three 1 1))))) = [5] \<and>
   map an_delivered (analytics_of 1 (db_analytics (snd (db_createOrUpdateAnalytics 9
     (snd (db_createOrUpdateAnalytics 8 db_empty (sent_five 1 1))) (delivered_three 1 1))))) = [3] \<and>
   map an_read (analytics_of 1 (db_analytics
     (snd (db_createOrUpdateAnalytics 8 db_empty (sent_five 1 1))))) = [0] \<and>
   db_wf db_counted \<and> map an_sent (analytics_of 1 (db_analytics db_counted)) = [5] \<and>
   map an_sent (analytics_of 1 (db_analytics
     (snd (db_createOrUpdateAnalytics 9 db_counted (delivered_three 1 1))))) = [5] \<and>
   mem_wf mem_empty \<and> analytics_of 1 (map_values (analyticsData mem_empty)) = [] \<and>
   map an_sent (analytics_of 1 (map_values (analyticsData (snd (mem_createOrUpdateAnalytics 9
     (snd (mem_createOrUpdateAnalytics 8 mem_empty (sent_five 1 1))) (delivered_three 1 1)))))) = [5] \<and>
   map an_delivered (analytics_of 1 (map_values (analyticsData (snd (mem_createOrUpdateAnalytics 9
     (snd (mem_createOrUpdateAnalytics 8 mem_empty (sent_five 1 1))) (delivered_three 1 1)))))) = [3] \<and>
   map an_read (analytics_of 1 (map_values (analyticsData
     (snd (mem_createOrUpdateAnalytics 8 mem_empty (sent_five 1 1)))))) = [0] \<and>
   mem_wf mem_counted \<and>
   map an_sent (analytics_of 1 (map_values (analyticsData mem_counted))) = [5] \<and>
   map an_sent (analytics_of 1 (map_values (analyticsData
     (snd (mem_createOrUpdateAnalytics 9 mem_counted (delivered_three 1 1)))))) = [5]"
proof -
  have e: "analytics_of 1 (db_analytics db_empty) = []"
    "analytics_of 1 (map_values (analyticsData mem_empty)) = []"
    by (simp_all add: analytics_of_def db_empty_def mem_empty_def map_values_def)
  have c: "analytics_of 1 (db_analytics db_counted) =
      [\<lparr> an_id = 1, an_accountId = 1, an_campaignId = 1, an_sent = 5,
       an_delivered = 0, an_read = 0, an_optout = 0, an_hold = 0, an_failed = 0,
       an_updatedAt = 8 \<rparr>]"
    "analytics_of 1 (map_values (analyticsData mem_counted)) =
      [\<lparr> an_id = 1, an_accountId = 1, an_campaignId = 1, an_sent = 5,
       an_delivered = 0, an_read = 0, an_optout = 0, an_hold = 0, an_failed = 0,
       an_updatedAt = 8 \<rparr>]"
    by (simp_all add: db_counted_eval mem_counted_eval analytics_of_def map_values_def)
  have i: "ia_campaignId (sent_five 1 1) = 1" "ia_campaignId (delivered_three 1 1) = 1"
    "ia_read (sent_five 1 1) = None" "ia_sent (delivered_three 1 1) = None"
    by (simp_all add: sent_five_def delivered_three_def)
  from createOrUpdateAnalytics_merges
    [of db_empty 9 8 1 1 1 "sent_five 1 1" mem_empty] db_empty_wf mem_empty_wf e i
  have 1: "map an_sent (analytics_of 1 (db_analytics (snd (db_createOrUpdateAnalytics 9
     (snd (db_createOrUpdateAnalytics 8 db_empty (sent_five 1 1))) (delivered_three 1 1))))) = [5]"
    "map an_delivered (analytics_of 1 (db_analytics (snd (db_createOrUpdateAnalytics 9
     (snd (db_createOrUpdateAnalytics 8 db_empty (sent_five 1 1))) (delivered_three 1 1))))) = [3]"
    "map an_read (analytics_of 1 (db_analytics
     (snd (db_createOrUpdateAnalytics 8 db_empty (sent_five 1 1))))) = [0]"
    "map an_sent (analytics_of 1 (map_values (analyticsData (snd (mem_createOrUpdateAnalytics 9
     (snd (mem_createOrUpdateAnalytics 8 mem_empty (sent_five 1 1))) (delivered_three 1 1)))))) = [5]"
    "map an_delivered (analytics_of 1 (map_values (analyticsData (snd (mem_createOrUpdateAnalytics 9
     (snd (mem_createOrUpdateAnalytics 8 mem_empty (sent_five 1 1))) (delivered_three 1 1)))))) = [3]"
    "map an_read (analytics_of 1 (map_values (analyticsData
     (snd (mem_createOrUpdateAnalytics 8 mem_empty (sent_five 1 1)))))) = [0]"
    by (auto simp: counters_defaulted_def kept_or_set_def)
  from createOrUpdateAnalytics_merges
    [of db_counted 8 9 1 1 1 "delivered_three 1 1" mem_counted] db_counted_wf mem_counted_wf c i
  have 2: "map an_sent (analytics_of 1 (db_analytics
     (snd (db_createOrUpdateAnalytics 9 db_counted (delivered_three 1 1))))) = [5]"
    "map an_sent (analytics_of 1 (map_values (analyticsData
     (snd (mem_createOrUpdateAnalytics 9 mem_counted (delivered_three 1 1)))))) = [5]"
    by (auto simp: counters_merged_def kept_or_set_def)
  show ?thesis
    using 1 2 e c db_empty_wf mem_empty_wf db_counted_wf mem_counted_wf by simp
qed

lemma db_launch_unfold:
  assumes "db_getCampaignById s ident = Some c"
  shows "snd (db_launchCampaign now s ident) =
         snd (db_createOrUpdateAnalytics now
           (s\<lparr> db_campaigns := map (\<lambda>c. if cp_id c = ident then c\<lparr> cp_status := ''active'' \<rparr> else c)
              (db_campaigns s) \<rparr>)
           (zero_input (cp_accountId c) ident))"
proof -
  from assms obtain rest where "filter (\<lambda>c. cp_id c = ident) (db_campaigns s) = c # rest"
    by (cases "filter (\<lambda>c. cp_id c = ident) (db_campaigns s)")
       (auto simp: db_getCampaignById_def select_where_def)
  then show ?thesis
    by (simp add: db_launchCampaign_def update_where_def zero_input_def)
qed

lemma zero_input_row:
  "counters_defaulted (zero_input a k) r \<Longrightarrow> zero_counters r"
  "counters_merged (zero_input a k) e r \<Longrightarrow> zero_counters r"
  by (simp_all add: counters_defaulted_def counters_merged_def zero_input_def kept_or_set_def
      zero_counters_def)

lemma db_launch_analytics:
  assumes wf: "db_wf s" and c: "db_getCampaignById s ident = Some c"
  shows "\<exists>r. analytics_of ident (db_analytics (snd (db_launchCampaign now s ident))) = [r] \<and>
             zero_counters r"
proof -
  let ?s1 = "s\<lparr> db_campaigns := map (\<lambda>c. if cp_id c = ident then c\<lparr> cp_status := ''active'' \<rparr> else c)
      (db_campaigns s) \<rparr>"
  have "table_wf cp_id (db_campaigns ?s1) (db_campaigns_seq s)"
    using wf by (simp add: db_wf_def table_wf_update)
  with wf have wf1: "db_wf ?s1" by (simp add: db_wf_def)
  have k: "ia_campaignId (zero_input (cp_accountId c) ident) = ident"
    by (simp add: zero_input_def)
  from db_upsert_row [OF wf1, of now "zero_input (cp_accountId c) ident"]
    db_one_row_at_most [OF wf1, of ident]
  show ?thesis
    unfolding db_launch_unfold [OF c] k
    using zero_input_row by blast
qed

lemma mem_launch_rows:
  assumes "mem_wf m"
  shows "map_values (analyticsData (snd (mem_launchCampaign now m ident))) =
         db_analytics (snd (db_launchCampaign now (mem_rows m) ident))"
proof -
  have "db_analytics (mem_rows (snd (mem_launchCampaign now m ident))) =
      map_values (analyticsData (snd (mem_launchCampaign now m ident)))"
    by (simp add: mem_rows_def)
  then show ?thesis
    using mem_rows_snd [OF sim_launchCampaign [OF assms, of now ident]] by simp
qed

lemma mem_launch_analytics:
  assumes wf: "mem_wf m" and c: "mem_getCampaignById m ident = Some c"
  shows "\<exists>r. analytics_of ident
               (map_values (analyticsData (snd (mem_launchCampaign now m ident)))) = [r] \<and>
             zero_counters r"
proof -
  have "db_getCampaignById (mem_rows m) ident = Some c"
    using sim_getCampaignById [OF wf, of ident] c by simp
  from db_launch_analytics [OF mem_wf_db [OF wf] this, of now]
  show ?thesis unfolding mem_launch_rows [OF wf] .
qed

text \<open>
  C3, as the code has it: on a well-formed store \<open>launchCampaign\<close> of a stored campaign
  returns true, sets its status to \<open>active\<close>, and leaves exactly one analytics row for
  the campaign, whose six counters are all 0 whether or not a row existed before the call.
  For an unknown id it returns false and the store, analytics included, is unchanged.
  Both backends.
\<close>

theorem launchCampaign_zeroes_analytics:
  "(db_wf s \<and> db_getCampaignById s ident = Some c \<longrightarrow>
      fst (db_launchCampaign now s ident) \<and>
      db_getCampaignById (snd (db_launchCampaign now s ident)) ident =
        Some (c\<lparr> cp_status := ''active'' \<rparr>) \<and>
      (\<exists>r. analytics_of ident (db_analytics (snd (db_launchCampaign now s ident))) = [r] \<and>
           zero_counters r)) \<and>
   (db_getCampaignById s ident = None \<longrightarrow> db_launchCampaign now s ident = (False, s)) \<and>
   (mem_wf m \<and> mem_getCampaignById m ident = Some c' \<longrightarrow>
      fst (mem_launchCampaign now m ident) \<and>
      mem_getCampaignById (snd (mem_launchCampaign now m ident)) ident =
        Some (c'\<lparr> cp_status := ''active'' \<rparr>) \<and>
      (\<exists>r. analytics_of ident
             (map_values (analyticsData (snd (mem_launchCampaign now m ident)))) = [r] \<and>
           zero_counters r)) \<and>
   (mem_getCampaignById m ident = None \<longrightarrow> mem_launchCampaign now m ident = (False, m))"
  using db_launch_exists [of s ident c now] db_launch_analytics [of s ident c now]
    db_launch_missing [of s ident now]
    mem_launch_exists [of m ident c' now] mem_launch_analytics [of m ident c' now]
    mem_launch_missing [of m ident now]
  by blast

lemma counted_campaign:
  "db_getCampaignById db_counted 1 = Some draft_campaign"
  "mem_getCampaignById mem_counted 1 = Some draft_campaign"
  "db_getCampaignById db_counted 2 = None"
  "mem_getCampaignById mem_counted 2 = None"
  by (simp_all add: db_counted_eval mem_counted_eval db_getCampaignById_def
      mem_getCampaignById_def select_where_def map_get_def draft_campaign_def)

lemma counted_launch:
  "analytics_of 1 (db_analytics (snd (db_launchCampaign 9 db_counted 1))) =
     [\<lparr> an_id = 1, an_accountId = 1, an_campaignId = 1, an_sent = 0,
       an_delivered = 0, an_read = 0, an_optout = 0, an_hold = 0, an_failed = 0,
       an_updatedAt = 9 \<rparr>]"
  "analytics_of 1 (map_values (analyticsData (snd (mem_launchCampaign 9 mem_counted 1)))) =
     [\<lparr> an_id = 1, an_accountId = 1, an_campaignId = 1, an_sent = 0,
       an_delivered = 0, an_read = 0, an_optout = 0, an_hold = 0, an_failed = 0,
       an_updatedAt = 9 \<rparr>]"
  by (simp_all add: db_counted_eval mem_counted_eval db_launchCampaign_def
      mem_launchCampaign_def db_createOrUpdateAnalytics_def mem_createOrUpdateAnalytics_def
      update_where_def select_where_def analytics_of_def map_values_def map_get_def
      map_set_def Let_def)

theorem launchCampaign_zeroes_analytics_witness:
  "db_wf db_counted \<and> db_getCampaignById db_counted 1 \<noteq> None \<and>
   fst (db_launchCampaign 9 db_counted 1) \<and>
   map cp_status (db_campaigns (snd (db_launchCampaign 9 db_counted 1))) = [''active''] \<and>
   length (analytics_of 1 (db_analytics (snd (db_launchCampaign 9 db_counted 1)))) = 1 \<and>
   list_all zero_counters (analytics_of 1 (db_analytics (snd (db_launchCampaign 9 db_counted 1)))) \<and>
   db_getCampaignById db_counted 2 = None \<and>
   db_launchCampaign 9 db_counted 2 = (False, db_counted) \<and>
   mem_wf mem_counted \<and> mem_getCampaignById mem_counted 1 \<noteq> None \<and>
   fst (mem_launchCampaign 9 mem_counted 1) \<and>
   map cp_status (map_values (campaigns (snd (mem_launchCampaign 9 mem_counted 1)))) = [''active''] \<and>
   length (analytics_of 1
     (map_values (analyticsData (snd (mem_launchCampaign 9 mem_counted 1))))) = 1 \<and>
   list_all zero_counters (analytics_of 1
     (map_values (analyticsData (snd (mem_launchCampaign 9 mem_counted 1))))) \<and>
   mem_getCampaignById mem_counted 2 = None \<and>
   mem_launchCampaign 9 mem_counted 2 = (False, mem_counted)"
proof -
  have s: "map cp_status (db_campaigns (snd (db_launchCampaign 9 db_counted 1))) = [''active'']"
    "map cp_status (map_values (campaigns (snd (mem_launchCampaign 9 mem_counted 1)))) = [''active'']"
    by (simp_all add: db_counted_eval mem_counted_eval db_launchCampaign_def
      mem_launchCampaign_def db_createOrUpdateAnalytics_def mem_createOrUpdateAnalytics_def
      update_where_def select_where_def map_values_def map_get_def map_set_def Let_def)
  from launchCampaign_zeroes_analytics
      [of db_counted 1 draft_campaign 9 mem_counted draft_campaign]
    db_counted_wf mem_counted_wf counted_campaign(1,2)
  have 1: "fst (db_launchCampaign 9 db_counted 1)"
    "\<exists>r. analytics_of 1 (db_analytics (snd (db_launchCampaign 9 db_counted 1))) = [r] \<and>
         zero_counters r"
    "fst (mem_launchCampaign 9 mem_counted 1)"
    "\<exists>r. analytics_of 1 (map_values (analyticsData (snd (mem_launchCampaign 9 mem_counted 1)))) = [r] \<and>
         zero_counters r"
    by blast+
  from launchCampaign_zeroes_analytics
      [of db_counted 2 draft_campaign 9 mem_counted draft_campaign] counted_campaign(3,4)
  have 2: "db_launchCampaign 9 db_counted 2 = (False, db_counted)"
    "mem_launchCampaign 9 mem_counted 2 = (False, mem_counted)"
    by blast+
  show ?thesis
    using 1 2 s db_counted_wf mem_counted_wf counted_campaign by auto
qed

text \<open>
  C3 as the specification words it fails: a campaign whose analytics row has \<open>sent = 5\<close>
  is launched, and the row afterwards has \<open>sent = 0\<close>.
\<close>

theorem launchCampaign_resets_counters:
  "map an_sent (analytics_of 1 (db_analytics db_counted)) = [5] \<and>
   db_getCampaignById db_counted 1 \<noteq> None \<and>
   map an_sent (analytics_of 1 (db_analytics (snd (db_launchCampaign 9 db_counted 1)))) = [0] \<and>
   \<not> list_all2 same_counters (analytics_of 1 (db_analytics db_counted))
        (analytics_of 1 (db_analytics (snd (db_launchCampaign 9 db_counted 1)))) \<and>
   map an_sent (analytics_of 1 (map_values (analyticsData mem_counted))) = [5] \<and>
   mem_getCampaignById mem_counted 1 \<noteq> None \<and>
   map an_sent (analytics_of 1
     (map_values (analyticsData (snd (mem_launchCampaign 9 mem_counted 1))))) = [0] \<and>
   \<not> list_all2 same_counters (analytics_of 1 (map_values (analyticsData mem_counted)))
        (analytics_of 1 (map_values (analyticsData (snd (mem_launchCampaign 9 mem_counted 1)))))"
  by (simp add: counted_launch counted_campaign)
     (simp add: db_counted_eval mem_counted_eval analytics_of_def map_values_def
       same_counters_def)

subsection \<open>Importing contacts\<close>

lemma db_byMobile_iff:
  "db_getContactByMobile s mobile a \<noteq> None \<longleftrightarrow>
   (mobile, a) \<in> set (map contact_key (db_contacts s))"
  by (auto simp: db_getContactByMobile_def select_where_def first_row_None_iff
      filter_empty_conv contact_key_def)

lemma seen_count_set:
  "set seen = set seen' \<Longrightarrow> seen_count seen cs = seen_count seen' cs"
proof (induction cs arbitrary: seen seen')
  case Nil
  show ?case by simp
next
  case (Cons c cs)
  have "set (insert_key c # seen) = set (insert_key c # seen')"
    using Cons.prems by simp
  then have "seen_count (insert_key c # seen) cs = seen_count (insert_key c # seen') cs"
    by (rule Cons.IH)
  moreover have "seen_count seen cs = seen_count seen' cs"
    using Cons.prems by (rule Cons.IH)
  ultimately show ?case
    using Cons.prems by simp
qed

lemma kept_records_set:
  "set seen = set seen' \<Longrightarrow> kept_records seen cs = kept_records seen' cs"
proof (induction cs arbitrary: seen seen')
  case Nil
  show ?case by simp
next
  case (Cons c cs)
  have "set (insert_key c # seen) = set (insert_key c # seen')"
    using Cons.prems by simp
  then have "kept_records (insert_key c # seen) cs = kept_records (insert_key c # seen') cs"
    by (rule Cons.IH)
  moreover have "kept_records seen cs = kept_records seen' cs"
    using Cons.prems by (rule Cons.IH)
  ultimately show ?case
    using Cons.prems by simp
qed

lemma seen_count_le: "seen_count seen cs \<le> length cs"
  by (induction cs arbitrary: seen) (auto simp: le_SucI)

lemma kept_and_seen: "length (kept_records seen cs) + seen_count seen cs = length cs"
  by (induction cs arbitrary: seen) auto

lemma length_kept_records:
  "length (kept_records seen cs) = length cs - seen_count seen cs"
  using kept_and_seen [of seen cs] by simp

lemma length_stored_rows: "length (stored_rows clock i k cs) = length cs"
  by (induction cs arbitrary: i k) auto

lemma db_createContact_row:
  "db_contacts (snd (db_createContact now s c)) =
     db_contacts s @ [contact_row now (db_contacts_seq s) c]"
  "db_contacts_seq (snd (db_createContact now s c)) = db_contacts_seq s + 1"
  by (simp_all add: db_createContact_def Let_def contact_row_def)

lemma db_createContact_keys:
  "set (map contact_key (db_contacts (snd (db_createContact now s c)))) =
   set (insert_key c # map contact_key (db_contacts s))"
  by (simp add: db_createContact_row contact_key_def insert_key_def contact_row_def)

lemma db_importLoop_rows:
  "fst (db_importLoop clock True cs imp dup s) =
     \<lparr> imported = imp + length (kept_records (map contact_key (db_contacts s)) cs),
       duplicates = dup + seen_count (map contact_key (db_contacts s)) cs \<rparr> \<and>
   db_contacts (snd (db_importLoop clock True cs imp dup s)) =
     db_contacts s @
     stored_rows clock imp (db_contacts_seq s)
       (kept_records (map contact_key (db_contacts s)) cs)"
proof (induction cs arbitrary: imp dup s)
  case Nil
  then show ?case by simp
next
  case (Cons c cs)
  let ?keys = "map contact_key (db_contacts s)"
  show ?case
  proof (cases "db_getContactByMobile s (ic_mobile c) (ic_accountId c)")
    case (Some existing)
    then have "insert_key c \<in> set ?keys"
      using db_byMobile_iff [of s "ic_mobile c" "ic_accountId c"] by (simp add: insert_key_def)
    then show ?thesis
      using Some Cons.IH [of imp "dup + 1" s] by simp
  next
    case None
    then have n: "insert_key c \<notin> set ?keys"
      using db_byMobile_iff [of s "ic_mobile c" "ic_accountId c"] by (simp add: insert_key_def)
    let ?s' = "snd (db_createContact (clock imp) s c)"
    have k: "seen_count (map contact_key (db_contacts ?s')) cs = seen_count (insert_key c # ?keys) cs"
      by (rule seen_count_set) (rule db_createContact_keys)
    have k': "kept_records (map contact_key (db_contacts ?s')) cs =
        kept_records (insert_key c # ?keys) cs"
      by (rule kept_records_set) (rule db_createContact_keys)
    note ih = Cons.IH [of "imp + 1" dup ?s', unfolded k k']
    show ?thesis
      using None n ih by (simp add: db_createContact_row)
  qed
qed

lemma present_count_other:
  "k \<notin> set (map insert_key cs) \<Longrightarrow> present_count (k # seen) cs = present_count seen cs"
proof -
  assume "k \<notin> set (map insert_key cs)"
  then have "filter (\<lambda>c. insert_key c \<in> set (k # seen)) cs = filter (\<lambda>c. insert_key c \<in> set seen) cs"
    by (intro filter_cong) auto
  then show ?thesis by (simp add: present_count_def)
qed

lemma seen_count_distinct:
  "distinct (map insert_key cs) \<Longrightarrow> seen_count seen cs = present_count seen cs"
proof (induction cs arbitrary: seen)
  case Nil
  then show ?case by (simp add: present_count_def)
next
  case (Cons c cs)
  then have d: "distinct (map insert_key cs)" and n: "insert_key c \<notin> set (map insert_key cs)"
    by simp_all
  show ?case
  proof (cases "insert_key c \<in> set seen")
    case True
    then show ?thesis using Cons.IH [OF d, of seen] by (simp add: present_count_def)
  next
    case False
    have "seen_count (insert_key c # seen) cs = present_count seen cs"
      using Cons.IH [OF d, of "insert_key c # seen"] present_count_other [OF n, of seen] by simp
    with False show ?thesis by (simp add: present_count_def)
  qed
qed

lemma kept_records_distinct:
  "distinct (map insert_key cs) \<Longrightarrow>
   kept_records seen cs = filter (\<lambda>c. insert_key c \<notin> set seen) cs"
proof (induction cs arbitrary: seen)
  case Nil
  then show ?case by simp
next
  case (Cons c cs)
  then have d: "distinct (map insert_key cs)" and n: "insert_key c \<notin> set (map insert_key cs)"
    by simp_all
  have "\<forall>x\<in>set cs. insert_key x \<noteq> insert_key c"
    using n by (metis imageI set_map)
  then have "filter (\<lambda>x. insert_key x \<notin> set (insert_key c # seen)) cs =
      filter (\<lambda>x. insert_key x \<notin> set seen) cs"
    by (intro filter_cong) auto
  then show ?case
    using Cons.IH [OF d, of seen] Cons.IH [OF d, of "insert_key c # seen"] by simp
qed

lemma mem_import_rows:
  assumes "mem_wf m"
  shows "fst (mem_importContacts clock m cs dd) = fst (db_importContacts clock (mem_rows m) cs dd)"
    and "map_values (contacts (snd (mem_importContacts clock m cs dd))) =
         db_contacts (snd (db_importContacts clock (mem_rows m) cs dd))"
proof -
  note r = mem_rows_snd [OF sim_importContacts [OF assms, of clock cs dd]]
  show "fst (mem_importContacts clock m cs dd) = fst (db_importContacts clock (mem_rows m) cs dd)"
    using r by simp
  have "db_contacts (mem_rows (snd (mem_importContacts clock m cs dd))) =
      map_values (contacts (snd (mem_importContacts clock m cs dd)))"
    by (simp add: mem_rows_def)
  then show "map_values (contacts (snd (mem_importContacts clock m cs dd))) =
         db_contacts (snd (db_importContacts clock (mem_rows m) cs dd))"
    using r by simp
qed

text \<open>
  C5, as the code has it: \<open>importContacts\<close> with deduplication on a list of \<open>N\<close> records
  goes through the list in its order and checks every record against the store as it
  stands at that step.  It returns \<open>{imported: N - K, duplicates: K}\<close>, where \<open>K\<close>
  counts the records whose (mobile, accountId) pair is in storage when the call is made
  or belongs to an earlier record of the same list.  The store afterwards is the store
  before followed by the contacts created for the other \<open>N - K\<close> records, in the order
  of the list and under consecutive ids.  Where the pairs of the list are pairwise
  distinct, \<open>K\<close> is the number of records whose pair is in storage when the call is made
  and the records created are those whose pair is not.  Both backends, \<open>MemStorage\<close> on
  a well-formed store.
\<close>

theorem importContacts_counts:
  "fst (db_importContacts clock s cs True) =
     \<lparr> imported = length cs - seen_count (map contact_key (db_contacts s)) cs,
       duplicates = seen_count (map contact_key (db_contacts s)) cs \<rparr> \<and>
   db_contacts (snd (db_importContacts clock s cs True)) =
     db_contacts s @
     stored_rows clock 0 (db_contacts_seq s)
       (kept_records (map contact_key (db_contacts s)) cs) \<and>
   length (kept_records (map contact_key (db_contacts s)) cs) =
     length cs - seen_count (map contact_key (db_contacts s)) cs \<and>
   length (db_contacts (snd (db_importContacts clock s cs True))) =
     length (db_contacts s) + (length cs - seen_count (map contact_key (db_contacts s)) cs) \<and>
   (mem_wf m \<longrightarrow>
      fst (mem_importContacts clock m cs True) =
        \<lparr> imported = length cs - seen_count (map contact_key (map_values (contacts m))) cs,
          duplicates = seen_count (map contact_key (map_values (contacts m))) cs \<rparr> \<and>
      map_values (contacts (snd (mem_importContacts clock m cs True))) =
        map_values (contacts m) @
        stored_rows clock 0 (contactCurrentId m)
          (kept_records (map contact_key (map_values (contacts m))) cs) \<and>
      length (kept_records (map contact_key (map_values (contacts m))) cs) =
        length cs - seen_count (map contact_key (map_values (contacts m))) cs \<and>
      length (map_values (contacts (snd (mem_importContacts clock m cs True)))) =
        length (map_values (contacts m)) +
        (length cs - seen_count (map contact_key (map_values (contacts m))) cs)) \<and>
   (distinct (map insert_key cs) \<longrightarrow>
      seen_count (map contact_key (db_contacts s)) cs =
        present_count (map contact_key (db_contacts s)) cs \<and>
      kept_records (map contact_key (db_contacts s)) cs =
        filter (\<lambda>c. insert_key c \<notin> set (map contact_key (db_contacts s))) cs \<and>
      seen_count (map contact_key (map_values (contacts m))) cs =
        present_count (map contact_key (map_values (contacts m))) cs \<and>
      kept_records (map contact_key (map_values (contacts m))) cs =
        filter (\<lambda>c. insert_key c \<notin> set (map contact_key (map_values (contacts m)))) cs)"
proof -
  have c: "db_contacts (mem_rows m) = map_values (contacts m)"
    "db_contacts_seq (mem_rows m) = contactCurrentId m"
    by (simp_all add: mem_rows_def)
  have d: "fst (db_importContacts clock s cs True) =
      \<lparr> imported = length cs - seen_count (map contact_key (db_contacts s)) cs,
        duplicates = seen_count (map contact_key (db_contacts s)) cs \<rparr> \<and>
    db_contacts (snd (db_importContacts clock s cs True)) =
      db_contacts s @ stored_rows clock 0 (db_contacts_seq s)
        (kept_records (map contact_key (db_contacts s)) cs) \<and>
    length (db_contacts (snd (db_importContacts clock s cs True))) =
      length (db_contacts s) + (length cs - seen_count (map contact_key (db_contacts s)) cs)"
    for s
    using db_importLoop_rows [of clock cs 0 0 s]
    by (simp add: db_importContacts_def length_kept_records length_stored_rows)
  note db = d [of s]
  note mr = d [of "mem_rows m", unfolded c]
  have mem: "fst (mem_importContacts clock m cs True) =
        \<lparr> imported = length cs - seen_count (map contact_key (map_values (contacts m))) cs,
          duplicates = seen_count (map contact_key (map_values (contacts m))) cs \<rparr> \<and>
      map_values (contacts (snd (mem_importContacts clock m cs True))) =
        map_values (contacts m) @
        stored_rows clock 0 (contactCurrentId m)
          (kept_records (map contact_key (map_values (contacts m))) cs) \<and>
      length (kept_records (map contact_key (map_values (contacts m))) cs) =
        length cs - seen_count (map contact_key (map_values (contacts m))) cs \<and>
      length (map_values (contacts (snd (mem_importContacts clock m cs True)))) =
        length (map_values (contacts m)) +
        (length cs - seen_count (map contact_key (map_values (contacts m))) cs)"
    if "mem_wf m"
    using mr mem_import_rows [OF that, of clock cs True]
      length_kept_records [of "map contact_key (map_values (contacts m))" cs]
    by (simp add: length_stored_rows)
  have dist: "seen_count seen cs = present_count seen cs \<and>
      kept_records seen cs = filter (\<lambda>c. insert_key c \<notin> set seen) cs"
    if "distinct (map insert_key cs)" for seen
    using seen_count_distinct [OF that] kept_records_distinct [OF that] by simp
  show ?thesis
    using db mem dist [of "map contact_key (db_contacts s)"]
      dist [of "map contact_key (map_values (contacts m))"]
      length_kept_records [of "map contact_key (db_contacts s)" cs]
    by blast
qed

lemma bob_stores:
  "db_contacts db_bob = [\<lparr> c_id = 1, c_accountId = 1, c_name = ''Bob'', c_mobile = ''555'',
      c_label = None, c_location = None, c_createdAt = 7 \<rparr>]"
  "map_values (contacts mem_bob) = [\<lparr> c_id = 1, c_accountId = 1, c_name = ''Bob'',
      c_mobile = ''555'', c_label = None, c_location = None, c_createdAt = 7 \<rparr>]"
  "db_contacts_seq db_bob = 2"
  "contactCurrentId mem_bob = 2"
  by (simp_all add: db_bob_def mem_bob_def db_createContact_def mem_createContact_def
      db_empty_def mem_empty_def bob_def map_set_def map_values_def Let_def)

lemma empty_stores:
  "db_contacts db_empty = []" "db_contacts_seq db_empty = 1"
  "map_values (contacts mem_empty) = []" "contactCurrentId mem_empty = 1"
  by (simp_all add: db_empty_def mem_empty_def map_values_def)

lemma mem_bob_wf: "mem_wf mem_bob"
  unfolding mem_bob_def by (intro mem_createContact_wf mem_empty_wf)

lemma input_keys:
  "insert_key bob = (''555'', 1)" "insert_key robert = (''555'', 1)"
  "insert_key carol = (''777'', 1)"
  by (simp_all add: insert_key_def bob_def robert_def carol_def)

theorem importContacts_counts_witness:
  "mem_wf mem_bob \<and> distinct (map insert_key [bob, carol]) \<and>
   present_count (map contact_key (db_contacts db_bob)) [bob, carol] = 1 \<and>
   fst (db_importContacts ticks db_bob [bob, carol] True) = \<lparr> imported = 1, duplicates = 1 \<rparr> \<and>
   db_contacts (snd (db_importContacts ticks db_bob [bob, carol] True)) =
     db_contacts db_bob @ [contact_row (ticks 0) 2 carol] \<and>
   fst (mem_importContacts ticks mem_bob [bob, carol] True) = \<lparr> imported = 1, duplicates = 1 \<rparr> \<and>
   map_values (contacts (snd (mem_importContacts ticks mem_bob [bob, carol] True))) =
     map_values (contacts mem_bob) @ [contact_row (ticks 0) 2 carol] \<and>
   mem_wf mem_empty \<and>
   fst (db_importContacts ticks db_empty [bob, robert, carol] True) =
     \<lparr> imported = 2, duplicates = 1 \<rparr> \<and>
   db_contacts (snd (db_importContacts ticks db_empty [bob, robert, carol] True)) =
     [contact_row (ticks 0) 1 bob, contact_row (ticks 1) 2 carol] \<and>
   fst (mem_importContacts ticks mem_empty [bob, robert, carol] True) =
     \<lparr> imported = 2, duplicates = 1 \<rparr> \<and>
   map_values (contacts (snd (mem_importContacts ticks mem_empty [bob, robert, carol] True))) =
     [contact_row (ticks 0) 1 bob, contact_row (ticks 1) 2 carol]"
proof -
  have d: "distinct (map insert_key [bob, carol])"
    by (simp add: input_keys)
  have p: "present_count (map contact_key (db_contacts db_bob)) [bob, carol] = 1"
    "present_count (map contact_key (map_values (contacts mem_bob))) [bob, carol] = 1"
    by (simp_all add: bob_stores present_count_def contact_key_def input_keys)
  have k: "kept_records (map contact_key (db_contacts db_bob)) [bob, carol] = [carol]"
    "kept_records (map contact_key (map_values (contacts mem_bob))) [bob, carol] = [carol]"
    "kept_records [] [bob, robert, carol] = [bob, carol]"
    by (simp_all add: bob_stores contact_key_def input_keys)
  have c: "seen_count [] [bob, robert, carol] = 1"
    by (simp add: input_keys)
  have 1: "fst (db_importContacts ticks db_bob [bob, carol] True) = \<lparr> imported = 1, duplicates = 1 \<rparr>"
    "db_contacts (snd (db_importContacts ticks db_bob [bob, carol] True)) =
      db_contacts db_bob @ [contact_row (ticks 0) 2 carol]"
    "fst (mem_importContacts ticks mem_bob [bob, carol] True) = \<lparr> imported = 1, duplicates = 1 \<rparr>"
    "map_values (contacts (snd (mem_importContacts ticks mem_bob [bob, carol] True))) =
      map_values (contacts mem_bob) @ [contact_row (ticks 0) 2 carol]"
    using importContacts_counts [of ticks db_bob "[bob, carol]" mem_bob] mem_bob_wf d p k
    by (simp_all add: bob_stores(3,4))
  have 2: "fst (db_importContacts ticks db_empty [bob, robert, carol] True) =
      \<lparr> imported = 2, duplicates = 1 \<rparr>"
    "db_contacts (snd (db_importContacts ticks db_empty [bob, robert, carol] True)) =
      [contact_row (ticks 0) 1 bob, contact_row (ticks 1) 2 carol]"
    "fst (mem_importContacts ticks mem_empty [bob, robert, carol] True) =
      \<lparr> imported = 2, duplicates = 1 \<rparr>"
    "map_values (contacts (snd (mem_importContacts ticks mem_empty [bob, robert, carol] True))) =
      [contact_row (ticks 0) 1 bob, contact_row (ticks 1) 2 carol]"
    using importContacts_counts [of ticks db_empty "[bob, robert, carol]" mem_empty]
      mem_empty_wf k c
    by (simp_all add: empty_stores)
  show ?thesis
    using 1 2 d p mem_bob_wf mem_empty_wf by simp
qed

text \<open>
  C5 as the specification words it fails on a list that repeats a record: neither of the
  two records is in storage when the call is made, so \<open>K = 0\<close>, yet one is imported and
  one is counted as a duplicate, and storage grows by one.
\<close>

theorem importContacts_batch_duplicate:
  "present_count (map contact_key (db_contacts db_empty)) [bob, bob] = 0 \<and>
   fst (db_importContacts ticks db_empty [bob, bob] True) = \<lparr> imported = 1, duplicates = 1 \<rparr> \<and>
   length (db_contacts (snd (db_importContacts ticks db_empty [bob, bob] True))) =
     length (db_contacts db_empty) + 1 \<and>
   present_count (map contact_key (map_values (contacts mem_empty))) [bob, bob] = 0 \<and>
   fst (mem_importContacts ticks mem_empty [bob, bob] True) = \<lparr> imported = 1, duplicates = 1 \<rparr> \<and>
   length (map_values (contacts (snd (mem_importContacts ticks mem_empty [bob, bob] True)))) =
     length (map_values (contacts mem_empty)) + 1"
  by (simp add: db_importContacts_def mem_importContacts_def db_getContactByMobile_def
      mem_getContactByMobile_def db_createContact_def mem_createContact_def db_empty_def
      mem_empty_def bob_def select_where_def map_values_def map_set_def present_count_def
      Let_def)

subsection \<open>Date ranges\<close>

lemma div_step:
  assumes "0 < (n::int)"
  shows "(x + 1) div n = x div n + (if (x + 1) mod n = 0 then 1 else 0)"
proof (cases "x mod n + 1 = n")
  case True
  have "x = n * (x div n) + x mod n" by simp
  then have "x + 1 = n * (x div n) + n" using True by linarith
  then have e: "x + 1 = n * (x div n + 1)" by (simp add: algebra_simps)
  have "(x + 1) div n = x div n + 1"
    unfolding e using assms by simp
  moreover have "(x + 1) mod n = 0"
    unfolding e by simp
  ultimately show ?thesis by simp
next
  case False
  have r: "0 \<le> x mod n + 1" "x mod n + 1 < n"
    using assms False pos_mod_bound [of n x] pos_mod_sign [of n x] by linarith+
  have e: "x + 1 = n * (x div n) + (x mod n + 1)"
    using div_mult_mod_eq [of x n] by (simp add: algebra_simps)
  have "(x + 1) div n = x div n"
    using int_div_pos_eq [OF e r] .
  moreover have "(x + 1) mod n = x mod n + 1"
    using int_mod_pos_eq [OF e r] .
  moreover have "x mod n + 1 \<noteq> 0"
    using pos_mod_sign [OF assms, of x] by linarith
  ultimately show ?thesis by simp
qed

lemma mod_shift: "(k::int) mod n = 0 \<Longrightarrow> ((y - k) mod n = 0) = (y mod n = 0)"
  by (metis mod_0_imp_dvd dvd_diff_left_iff dvd_imp_mod_0 mod_eq_0_iff_dvd)

lemma mod_coarser:
  assumes "(y::int) mod a = 0" and "b dvd a"
  shows "y mod b = 0"
proof -
  from assms(1) have "a dvd y" by (simp add: mod_eq_0_iff_dvd)
  with assms(2) have "b dvd y" by (rule dvd_trans)
  then show ?thesis by (simp add: mod_eq_0_iff_dvd)
qed

lemma div_step_shifted:
  assumes "0 < (n::int)" and "k mod n = 0" 
  shows "(y - (k + 1) + 1) div n = (y - (k + 1)) div n + (if y mod n = 0 then 1 else 0)"
proof -
  have "(y - (k + 1) + 1) mod n = 0 \<longleftrightarrow> y mod n = 0"
    using mod_shift [OF assms(2), of y] by simp
  then show ?thesis
    using div_step [OF assms(1), of "y - (k + 1)"] by simp
qed

lemma DayFromYear_step: "DayFromYear (y + 1) - DayFromYear y = DaysInYear y"
proof -
  have 4: "(y + 1 - 1969) div 4 = (y - 1969) div 4 + (if y mod 4 = 0 then 1 else 0)"
    using div_step_shifted [of 4 1968 y] by simp
  have 100: "(y + 1 - 1901) div 100 = (y - 1901) div 100 + (if y mod 100 = 0 then 1 else 0)"
    using div_step_shifted [of 100 1900 y] by simp
  have 400: "(y + 1 - 1601) div 400 = (y - 1601) div 400 + (if y mod 400 = 0 then 1 else 0)"
    using div_step_shifted [of 400 1600 y] by simp
  have a: "y mod 100 = 0 \<Longrightarrow> y mod 4 = 0"
    by (rule mod_coarser [of y 100 4]) simp_all
  have b: "y mod 400 = 0 \<Longrightarrow> y mod 100 = 0"
    by (rule mod_coarser [of y 400 100]) simp_all
  have "DayFromYear (y + 1) - DayFromYear y =
      365 + (if y mod 4 = 0 then 1 else 0) - (if y mod 100 = 0 then 1 else 0)
          + (if y mod 400 = 0 then 1 else 0)"
    unfolding DayFromYear_def 4 100 400 by (simp add: algebra_simps)
  also have "\<dots> = DaysInYear y"
    unfolding DaysInYear_def using a b by auto
  finally show ?thesis .
qed

subsection \<open>The year of a time value\<close>

lemma DaysInYear_bounds: "365 \<le> DaysInYear y \<and> DaysInYear y \<le> 366"
  by (simp add: DaysInYear_def)

lemma DayFromYear_1970: "DayFromYear 1970 = 0"
  by (simp add: DayFromYear_def)

lemma DayFromYear_after:
  "1970 \<le> y \<Longrightarrow> 365 * (y - 1970) \<le> DayFromYear y \<and> DayFromYear y \<le> 366 * (y - 1970)"
proof (induction y rule: int_ge_induct)
  case base
  show ?case by (simp add: DayFromYear_1970)
next
  case (step i)
  show ?case
    using step.IH DayFromYear_step [of i] DaysInYear_bounds [of i] by simp
qed

lemma DayFromYear_before:
  "y \<le> 1970 \<Longrightarrow> 366 * (y - 1970) \<le> DayFromYear y \<and> DayFromYear y \<le> 365 * (y - 1970)"
proof (induction y rule: int_le_induct)
  case base
  show ?case by (simp add: DayFromYear_1970)
next
  case (step i)
  show ?case
    using step.IH DayFromYear_step [of "i - 1"] DaysInYear_bounds [of "i - 1"] by simp
qed

lemma DayFromYear_mono: "y \<le> z \<Longrightarrow> DayFromYear y \<le> DayFromYear z"
proof (induction z rule: int_ge_induct)
  case base
  show ?case by simp
next
  case (step i)
  show ?case
    using step.IH DayFromYear_step [of i] DaysInYear_bounds [of i] by simp
qed

lemma last_year_in_range:
  assumes "lo \<le> hi" and "DayFromYear lo \<le> d"
  shows "lo \<le> fold (\<lambda>y acc. if DayFromYear y \<le> d then y else acc) [lo..hi] lo \<and>
         fold (\<lambda>y acc. if DayFromYear y \<le> d then y else acc) [lo..hi] lo \<le> hi \<and>
         DayFromYear (fold (\<lambda>y acc. if DayFromYear y \<le> d then y else acc) [lo..hi] lo) \<le> d \<and>
         (\<forall>y. fold (\<lambda>y acc. if DayFromYear y \<le> d then y else acc) [lo..hi] lo < y \<and> y \<le> hi
              \<longrightarrow> d < DayFromYear y)"
  using assms(1)
proof (induction hi rule: int_ge_induct)
  case base
  have "[lo..lo] = [lo]" by (simp add: upto.simps)
  then show ?case using assms(2) by simp
next
  case (step i)
  have u: "[lo..i + 1] = [lo..i] @ [i + 1]"
    using step.hyps upto_rec2 [of lo "i + 1"] by simp
  have c: "y \<le> i \<or> y = i + 1" if "y \<le> i + 1" for y :: int
    using that by arith
  show ?case
    unfolding u using step.IH by (auto simp: not_le dest: c)
qed

lemma above_quotient:
  assumes "0 < (n::int)"
  shows "d < n * (d div n + 1)"
proof -
  have e: "n * (d div n) + d mod n = d" by simp
  have "d mod n < n" using assms by simp
  with e have "d < n * (d div n) + n" by linarith
  then show ?thesis by (simp add: distrib_left)
qed

lemma below_quotient:
  assumes "0 < (n::int)"
  shows "n * (d div n) \<le> d"
proof -
  have e: "n * (d div n) + d mod n = d" by simp
  have "0 \<le> d mod n" using assms by simp
  with e show ?thesis by linarith
qed

text \<open>
  \<open>YearFromTime\<close> is the year the ECMAScript specification asks for: the last year that
  has begun by the day of \<open>t\<close>.
\<close>

lemma YearFromTime_is_year:
  "DayFromYear (YearFromTime t) \<le> Day t \<and> Day t < DayFromYear (YearFromTime t + 1)"
proof -
  let ?d = "Day t"
  let ?lo = "1970 + (if 0 \<le> ?d then ?d div 366 else ?d div 365)"
  let ?hi = "1970 + (if 0 \<le> ?d then ?d div 365 else ?d div 366)"
  let ?r = "fold (\<lambda>y acc. if DayFromYear y \<le> ?d then y else acc) [?lo..?hi] ?lo"
  have lo_hi: "?lo \<le> ?hi"
  proof (cases "0 \<le> ?d")
    case True
    then show ?thesis using zdiv_mono2 [of ?d 365 366] by simp
  next
    case False
    then show ?thesis using zdiv_mono2_neg [of ?d 365 366] by simp
  qed
  have lo: "DayFromYear ?lo \<le> ?d"
  proof (cases "0 \<le> ?d")
    case True
    then have "1970 \<le> ?lo" by (simp add: pos_imp_zdiv_nonneg_iff)
    from DayFromYear_after [OF this] True
    have "DayFromYear ?lo \<le> 366 * (?d div 366)" by simp
    also have "\<dots> \<le> ?d"
      by (rule below_quotient) simp
    finally show ?thesis .
  next
    case False
    then have "?d div 365 \<le> 0" by (simp add: div_nonpos_pos_le0)
    with False have "?lo \<le> 1970" by simp
    from DayFromYear_before [OF this] False
    have "DayFromYear ?lo \<le> 365 * (?d div 365)" by simp
    also have "\<dots> \<le> ?d"
      by (rule below_quotient) simp
    finally show ?thesis .
  qed
  have hi: "?d < DayFromYear (?hi + 1)"
  proof (cases "0 \<le> ?d")
    case True
    then have "1970 \<le> ?hi + 1" using pos_imp_zdiv_nonneg_iff [of 365 ?d] by simp
    from DayFromYear_after [OF this] True
    have "365 * (?d div 365 + 1) \<le> DayFromYear (?hi + 1)" by (simp add: algebra_simps)
    moreover have "?d < 365 * (?d div 365 + 1)"
      by (rule above_quotient) simp
    ultimately show ?thesis by linarith
  next
    case False
    then have "?d div 366 < 0" by (simp add: div_neg_pos_less0)
    with False have "?hi + 1 \<le> 1970" by simp
    from DayFromYear_before [OF this] False
    have "366 * (?d div 366 + 1) \<le> DayFromYear (?hi + 1)" by (simp add: algebra_simps)
    moreover have "?d < 366 * (?d div 366 + 1)"
      by (rule above_quotient) simp
    ultimately show ?thesis by linarith
  qed
  from last_year_in_range [OF lo_hi lo]
  have r: "?r \<le> ?hi" "DayFromYear ?r \<le> ?d"
    "\<forall>y. ?r < y \<and> y \<le> ?hi \<longrightarrow> ?d < DayFromYear y" by blast+
  have "?d < DayFromYear (?r + 1)"
  proof (cases "?r = ?hi")
    case True
    then show ?thesis using hi by simp
  next
    case False
    with r(1) have "?r < ?r + 1 \<and> ?r + 1 \<le> ?hi" by linarith
    with r(3) show ?thesis by blast
  qed
  moreover have "YearFromTime t = ?r"
    by (simp add: YearFromTime_def Let_def)
  ultimately show ?thesis using r(2) by simp
qed

lemma YearFromTime_largest: "DayFromYear y \<le> Day t \<Longrightarrow> y \<le> YearFromTime t"
proof (rule ccontr)
  assume a: "DayFromYear y \<le> Day t" and "\<not> y \<le> YearFromTime t"
  then have "YearFromTime t + 1 \<le> y" by simp
  then have "DayFromYear (YearFromTime t + 1) \<le> DayFromYear y" by (rule DayFromYear_mono)
  with a YearFromTime_is_year [of t] show False by linarith
qed


subsection \<open>Date ranges, continued\<close>































text \<open>
  Two calls in which \<open>last-week\<close> is not seven days before the call.  In the zone that
  keeps daylight saving time, two days after the switch, the start is an hour less than
  seven days back.  Where the first clock reading is the last millisecond of January and
  the second the first of February, the start is the 24th of February, 23 days ahead.
\<close>

lemma last_week_examples:
  "dateRangeStart eastern 1710259200000 1710259200000 ''last-week'' =
     1710259200000 - 7 * msPerDay + msPerHour"
  "dateRangeStart (fixed_zone 0) 1706745599999 1706745600000 ''last-week'' =
     1706745600000 + 23 * msPerDay"
  by code_simp+





lemma counted_stores:
  "db_campaigns db_counted = [draft_campaign]"
  "map_values (campaigns mem_counted) = [draft_campaign]"
  by (simp_all add: db_counted_eval mem_counted_eval map_values_def draft_campaign_def)


subsection \<open>Filter priority\<close>

text \<open>
  \<open>DatabaseStorage\<close> returns from the first filter field that is set: the fields after
  it do not matter.
\<close>

lemma db_getContacts_search_first:
  "or_null (cf_search f) = Some x \<Longrightarrow>
   db_getContacts tz now startDate s a (Some f) =
   db_getContacts tz now startDate s a
     (Some \<lparr> cf_search = Some x, cf_label = None, cf_location = None, cf_dateRange = None \<rparr>)"
  by (cases "cf_search f") (auto simp: db_getContacts_def split: if_splits)

lemma db_getContacts_label_second:
  "or_null (cf_search f) = None \<Longrightarrow> or_null (cf_label f) = Some x \<Longrightarrow>
   db_getContacts tz now startDate s a (Some f) =
   db_getContacts tz now startDate s a
     (Some \<lparr> cf_search = None, cf_label = Some x, cf_location = None, cf_dateRange = None \<rparr>)"
  by (cases "cf_label f") (auto simp: db_getContacts_def split: if_splits)

lemma db_getContacts_location_third:
  "or_null (cf_search f) = None \<Longrightarrow> or_null (cf_label f) = None \<Longrightarrow>
   or_null (cf_location f) = Some x \<Longrightarrow>
   db_getContacts tz now startDate s a (Some f) =
   db_getContacts tz now startDate s a
     (Some \<lparr> cf_search = None, cf_label = None, cf_location = Some x, cf_dateRange = None \<rparr>)"
  by (cases "cf_location f") (auto simp: db_getContacts_def split: if_splits)

lemma db_getCampaigns_search_first:
  "or_null (pf_search f) = Some x \<Longrightarrow>
   db_getCampaigns tz now startDate s a (Some f) =
   db_getCampaigns tz now startDate s a
     (Some \<lparr> pf_search = Some x, pf_status = None, pf_dateRange = None \<rparr>)"
  by (cases "pf_search f") (auto simp: db_getCampaigns_def split: if_splits)

lemma db_getCampaigns_status_second:
  "or_null (pf_search f) = None \<Longrightarrow> or_null (pf_status f) = Some x \<Longrightarrow>
   db_getCampaigns tz now startDate s a (Some f) =
   db_getCampaigns tz now startDate s a
     (Some \<lparr> pf_search = None, pf_status = Some x, pf_dateRange = None \<rparr>)"
  by (cases "pf_status f") (auto simp: db_getCampaigns_def split: if_splits)

text \<open>
  Without a search term and with at most one further filter field set, the two backends
  return the same contacts.
\<close>

lemma sim_getContacts_unfiltered:
  "mem_getContacts tz now startDate m a None = db_getContacts tz now startDate (mem_rows m) a None"
  by (simp add: mem_getContacts_def db_getContacts_def mem_rows_def select_where_def)

lemma sim_getContacts_one_filter:
  assumes "or_null (cf_search f) = None"
    and "or_null (cf_label f) \<noteq> None \<longrightarrow>
         or_null (cf_location f) = None \<and> or_null (cf_dateRange f) = None"
    and "or_null (cf_location f) \<noteq> None \<longrightarrow> or_null (cf_dateRange f) = None"
  shows "mem_getContacts tz now startDate m a (Some f) = db_getContacts tz now startDate (mem_rows m) a (Some f)"
  using assms
  by (auto simp: mem_getContacts_def db_getContacts_def mem_rows_def select_where_def Let_def
      conj_commute split: option.splits)

lemma two_stores:
  "db_contacts db_two = [alice_row, anna_row]"
  "map_values (contacts mem_two) = [alice_row, anna_row]"
  by (simp_all add: db_two_def mem_two_def db_createContact_def mem_createContact_def
      db_empty_def mem_empty_def alice_def anna_def alice_row_def anna_row_def map_set_def
      map_values_def Let_def)

text \<open>
  C2 fails on \<open>MemStorage\<close>: \<open>getContacts\<close> with \<open>{search: "a", label: "vip"}\<close> applies
  the label filter after the search filter.  Both stored contacts match the search and
  only one carries the label; the call returns that one, not the two that the search alone
  returns.  In the same way \<open>getCampaigns\<close> with a search term and a status returns
  nothing for a draft campaign that the search term alone finds.
\<close>

theorem mem_getContacts_applies_every_filter:
  "map_values (contacts mem_two) = [alice_row, anna_row] \<and>
   mem_getContacts (fixed_zone 0) 9 9 mem_two 1 (Some search_only) = [alice_row, anna_row] \<and>
   mem_getContacts (fixed_zone 0) 9 9 mem_two 1 (Some search_and_label) = [alice_row] \<and>
   map_values (campaigns mem_counted) = [draft_campaign] \<and>
   mem_getCampaigns (fixed_zone 0) 9 9 mem_counted 1 (Some campaign_search_only) = [draft_campaign] \<and>
   mem_getCampaigns (fixed_zone 0) 9 9 mem_counted 1 (Some search_and_status) = []"
  by (simp add: mem_getContacts_def mem_getCampaigns_def two_stores counted_stores
      search_only_def search_and_label_def campaign_search_only_def search_and_status_def
      alice_row_def anna_row_def draft_campaign_def toLowerCase_def lower_char_def Let_def)

text \<open>
  C1 fails: after the same two \<open>createContact\<close> calls on fresh stores the backends hold
  the same contacts, and \<open>getContacts\<close> with \<open>{search: "a", label: "vip"}\<close> returns both
  from \<open>DatabaseStorage\<close> and one from \<open>MemStorage\<close>; with \<open>{search: "A"}\<close>
  \<open>DatabaseStorage\<close>, whose \<open>like\<close> is case sensitive, returns none and \<open>MemStorage\<close>,
  which lowers both sides, returns both.
\<close>

theorem backends_differ_on_filters:
  "db_contacts db_two = map_values (contacts mem_two) \<and>
   db_getContacts (fixed_zone 0) 9 9 db_two 1 (Some search_and_label) = [alice_row, anna_row] \<and>
   mem_getContacts (fixed_zone 0) 9 9 mem_two 1 (Some search_and_label) = [alice_row] \<and>
   db_getContacts (fixed_zone 0) 9 9 db_two 1 (Some search_upper) = [] \<and>
   mem_getContacts (fixed_zone 0) 9 9 mem_two 1 (Some search_upper) = [alice_row, anna_row]"
  by (simp add: db_getContacts_def mem_getContacts_def two_stores search_and_label_def
      search_upper_def alice_row_def anna_row_def select_where_def toLowerCase_def
      lower_char_def Let_def)

end
